theory Spec2Isabelle
  imports Complex_Main "HOL-Library.Multiset" "HOL-Library.Char_ord" "HOL-Library.List_Lexorder"
    "HOL-Library.AList"
begin

section \<open>Chemical-potential analysis of pycdt (pycdt/core/chemical\_potentials.py)\<close>

text \<open>
  The development embeds the facet bookkeeping of \<^verbatim>\<open>ChemPotAnalyzer\<close>,
  \<^verbatim>\<open>MPChemPotAnalyzer\<close> and \<^verbatim>\<open>UserChemPotAnalyzer\<close>. Python strings are
  \<^typ>\<open>string\<close>, ordered lexicographically by character code as Python orders them;
  a Python \<^verbatim>\<open>dict\<close> is an association list with distinct keys kept in insertion order
  (\<^const>\<open>AList.update\<close> overwrites in place or appends, as item assignment does); an
  exception is the left injection of a sum.
\<close>

subsection \<open>Strings: \<^verbatim>\<open>in\<close>, \<^verbatim>\<open>split('-')\<close>, \<^verbatim>\<open>'-'.join\<close>\<close>

text \<open>\<^verbatim>\<open>sub in s\<close> on two strings: \<^verbatim>\<open>sub\<close> occurs in \<^verbatim>\<open>s\<close> as a contiguous substring.\<close>

fun str_in :: "string \<Rightarrow> string \<Rightarrow> bool" where
  "str_in sub [] = (sub = [])"
| "str_in sub (c # cs) = (take (length sub) (c # cs) = sub \<or> str_in sub cs)"

text \<open>\<^verbatim>\<open>key.split('-')\<close>: the pieces between dashes; the empty string gives one empty piece.\<close>

fun split_dash :: "string \<Rightarrow> string list" where
  "split_dash [] = [[]]"
| "split_dash (c # cs) =
     (if c = CHR ''-'' then [] # split_dash cs
      else (case split_dash cs of
              [] \<Rightarrow> [[c]]
            | w # ws \<Rightarrow> (c # w) # ws))"

text \<open>\<^verbatim>\<open>'-'.join(xs)\<close>.\<close>

fun join_dash :: "string list \<Rightarrow> string" where
  "join_dash [] = []"
| "join_dash [x] = x"
| "join_dash (x # y # ys) = x @ ''-'' @ join_dash (y # ys)"

subsection \<open>\<^verbatim>\<open>ChemPotAnalyzer.diff_bulk_sub_phases\<close>\<close>

text \<open>
  The truth value of the optional argument \<^verbatim>\<open>sub_el\<close>: \<^verbatim>\<open>None\<close> and the empty
  string are both false.
\<close>

fun truthy :: "string option \<Rightarrow> bool" where
  "truthy None = False"
| "truthy (Some s) = (s \<noteq> [])"

text \<open>
  The loop over \<^verbatim>\<open>face_list\<close>, with the two accumulators \<^verbatim>\<open>blk\<close> and
  \<^verbatim>\<open>sub_spcs\<close>; each face is appended to exactly one of them.
\<close>

fun diff_loop :: "string option \<Rightarrow> string list \<Rightarrow> string list \<Rightarrow> string list
    \<Rightarrow> string list \<times> string list" where
  "diff_loop sub_el [] blk sub_spcs = (blk, sub_spcs)"
| "diff_loop sub_el (face # faces) blk sub_spcs =
     (if truthy sub_el then
        (if str_in (the sub_el) face
         then diff_loop sub_el faces blk (sub_spcs @ [face])
         else diff_loop sub_el faces (blk @ [face]) sub_spcs)
      else diff_loop sub_el faces (blk @ [face]) sub_spcs)"

text \<open>The two lists after \<^verbatim>\<open>blk.sort()\<close> and \<^verbatim>\<open>sub_spcs.sort()\<close>.\<close>

definition diff_sorted :: "string list \<Rightarrow> string option \<Rightarrow> string list \<times> string list" where
  "diff_sorted face_list sub_el =
     (case diff_loop sub_el face_list [] [] of (blk, sub_spcs) \<Rightarrow> (sort blk, sort sub_spcs))"

text \<open>The returned triple \<^verbatim>\<open>(blk, blknom, subnom)\<close>.\<close>

definition diff_bulk_sub_phases :: "string list \<Rightarrow> string option
    \<Rightarrow> string list \<times> string \<times> string" where
  "diff_bulk_sub_phases face_list sub_el =
     (case diff_sorted face_list sub_el of
        (blk, sub_spcs) \<Rightarrow> (blk, join_dash blk, join_dash sub_spcs))"

subsection \<open>Errors, dictionaries, loops that may raise\<close>

datatype error =
  ValueError | KeyError | TypeError | AttributeError | PhaseDiagramError | RuntimeError
  | MPRestError

definition ebind :: "error + 'a \<Rightarrow> ('a \<Rightarrow> error + 'b) \<Rightarrow> error + 'b" where
  "ebind m f = (case m of Inl e \<Rightarrow> Inl e | Inr x \<Rightarrow> f x)"

text \<open>\<^verbatim>\<open>d[k]\<close> on a dict: \<^verbatim>\<open>KeyError\<close> when the key is missing.\<close>

definition dict_get :: "('k \<times> 'v) list \<Rightarrow> 'k \<Rightarrow> error + 'v" where
  "dict_get d k = (case map_of d k of None \<Rightarrow> Inl KeyError | Some v \<Rightarrow> Inr v)"

text \<open>A \<^verbatim>\<open>for\<close> loop whose body may raise: the first exception ends the loop.\<close>

fun for_each :: "('a \<Rightarrow> 's \<Rightarrow> error + 's) \<Rightarrow> 'a list \<Rightarrow> 's \<Rightarrow> error + 's" where
  "for_each body [] s = Inr s"
| "for_each body (x # xs) s =
     (case body x s of Inl e \<Rightarrow> Inl e | Inr s' \<Rightarrow> for_each body xs s')"

subsection \<open>Compositions and entries\<close>

text \<open>
  Modelled from the spec: the class \<^verbatim>\<open>Composition\<close> of pymatgen, which the source only
  uses. A composition maps element symbols to stoichiometric counts; its elements are its
  keys; the reduced composition divides the counts by their greatest common divisor; two
  compositions are equal when every element has the same count in both.
\<close>

type_synonym composition = "(string \<times> nat) list"

definition elements :: "composition \<Rightarrow> string list" where
  "elements c = map fst c"

definition amount :: "composition \<Rightarrow> string \<Rightarrow> nat" where
  "amount c el = (case map_of c el of None \<Rightarrow> 0 | Some n \<Rightarrow> n)"

definition reduced_composition :: "composition \<Rightarrow> composition" where
  "reduced_composition c = map (\<lambda>(el, n). (el, n div fold gcd (map snd c) 0)) c"

definition comp_eq :: "composition \<Rightarrow> composition \<Rightarrow> bool" where
  "comp_eq a b = list_all (\<lambda>el. amount a el = amount b el) (elements a @ elements b)"

text \<open>
  An entry (\<^verbatim>\<open>ComputedEntry\<close>) with the attributes the source reads. Energies are
  Python floats; they are idealised as reals.
\<close>

record entry =
  entry_id :: "string option"
  composition :: composition
  energy :: real

definition is_element :: "entry \<Rightarrow> bool" where
  "is_element e = (length (elements (composition e)) = 1)"

subsection \<open>The collaborators: pymatgen's phase diagram and the Materials Project client\<close>

text \<open>
  A vector of chemical potentials is a dict. The solver keys it by \<^verbatim>\<open>Element\<close> objects
  and gives floats; the merge adds string keys (the symbol of a substitutional element,
  and \<^verbatim>\<open>'name-append'\<close> with a string value). An \<^verbatim>\<open>Element\<close> and the string of its
  symbol are different keys.
\<close>

datatype vkey = El string | Str string

datatype vval = Num real | Txt string

type_synonym chempots = "(vkey \<times> vval) list"

type_synonym chem_lims = "(string \<times> chempots) list"

text \<open>
  The phase-diagram library is not part of the repository and is a parameter:
  \<^verbatim>\<open>PhaseDiagram(entries)\<close>, the attributes \<^verbatim>\<open>all_entries\<close> and
  \<^verbatim>\<open>stable_entries\<close> of a diagram, the second component of
  \<^verbatim>\<open>get_decomp_and_e_above_hull(entry, allow_negative=True)\<close>,
  \<^verbatim>\<open>get_all_chempots(comp)\<close>, and the symbols \<^verbatim>\<open>Element(symbol)\<close> accepts. A diagram
  owns its entry list: the list \<^verbatim>\<open>all_entries\<close> gives is not the list the diagram was
  built from, and every call of \<^verbatim>\<open>get_all_chempots\<close> builds new vectors.
\<close>

record 'pd phase_diagram_lib =
  PhaseDiagram :: "entry list \<Rightarrow> error + 'pd"
  all_entries :: "'pd \<Rightarrow> entry list"
  stable_entries :: "'pd \<Rightarrow> entry list"
  e_above_hull :: "'pd \<Rightarrow> entry \<Rightarrow> real"
  get_all_chempots :: "'pd \<Rightarrow> composition \<Rightarrow> error + chem_lims"
  is_symbol :: "string \<Rightarrow> bool"

text \<open>\<^verbatim>\<open>Element(sub_el)\<close>: \<^verbatim>\<open>ValueError\<close> on a string that is no element symbol.\<close>

definition Element :: "'pd phase_diagram_lib \<Rightarrow> string \<Rightarrow> error + vkey" where
  "Element lib symbol = (if is_symbol lib symbol then Inr (El symbol) else Inl ValueError)"

text \<open>The two queries of \<^verbatim>\<open>MPRester\<close>.\<close>

record mp_rester =
  get_entries_in_chemsys :: "string list \<Rightarrow> error + entry list"
  get_entry_by_material_id :: "string \<Rightarrow> error + entry"

subsection \<open>\<^verbatim>\<open>ChemPotAnalyzer.get_chempots_from_pd\<close>\<close>

definition get_chempots_from_pd :: "'pd phase_diagram_lib \<Rightarrow> entry option \<Rightarrow> 'pd
    \<Rightarrow> error + chem_lims" where
  "get_chempots_from_pd lib bulk_ce pd =
     (case bulk_ce of
        None \<Rightarrow> Inl ValueError
      | Some b \<Rightarrow>
          ebind (PhaseDiagram lib (all_entries lib pd @ [b]))
            (\<lambda>pd'. get_all_chempots lib pd' (reduced_composition (composition b))))"

subsection \<open>\<^verbatim>\<open>MPChemPotAnalyzer\<close>\<close>

text \<open>
  The attributes of the analyzer. \<^verbatim>\<open>self.entries\<close> is the pair of its two keys
  \<^verbatim>\<open>'bulk_derived'\<close> and \<^verbatim>\<open>'subs_set'\<close>; \<^verbatim>\<open>sub_species\<close> is given in the order in
  which the loops visit it. \<^verbatim>\<open>get_mp_entries\<close> writes \<^verbatim>\<open>entries\<close>,
  \<^verbatim>\<open>bulk_species_symbol\<close> and \<^verbatim>\<open>redcomp\<close> before anything reads them.
\<close>

record mp_analyzer =
  bulk_ce :: "entry option"
  sub_species :: "string list"
  mpid :: "string option"
  bulk_derived :: "entry list"
  subs_set :: "(string \<times> entry list) list"
  bulk_species_symbol :: "string list"
  redcomp :: composition

text \<open>
  \<^verbatim>\<open>get_mp_entries\<close>, first part: the bulk entry is the one supplied, or else the one
  fetched by \<^verbatim>\<open>mpid\<close>; the flag returned is \<^verbatim>\<open>bce_override\<close>.
\<close>

definition resolve_bulk :: "mp_rester \<Rightarrow> mp_analyzer \<Rightarrow> error + (mp_analyzer \<times> bool)" where
  "resolve_bulk mp st =
     (case bulk_ce st of
        Some b \<Rightarrow>
          Inr (st\<lparr>bulk_species_symbol := elements (composition b),
                  redcomp := reduced_composition (composition b)\<rparr>, True)
      | None \<Rightarrow>
          if truthy (mpid st) then
            ebind (get_entry_by_material_id mp (the (mpid st)))
              (\<lambda>b. Inr (st\<lparr>bulk_ce := Some b,
                            bulk_species_symbol := elements (composition b),
                            redcomp := reduced_composition (composition b)\<rparr>, False))
          else Inl ValueError)"

text \<open>
  The branch \<^verbatim>\<open>full_sub_approach\<close>: one query for the whole chemical system, then every
  entry is appended to the list of each substitutional element its composition contains.
\<close>

definition collect_subs :: "string list \<Rightarrow> entry list \<Rightarrow> (string \<times> entry list) list" where
  "collect_subs subs bulk =
     fold (\<lambda>entry d.
             fold (\<lambda>sub_el d'.
                     if sub_el \<in> set (elements (composition entry))
                     then AList.map_entry sub_el (\<lambda>l. l @ [entry]) d' else d')
                  subs d)
          bulk
          (fold (\<lambda>sub_el d. AList.update sub_el [] d) subs [])"

definition get_mp_entries_full :: "mp_rester \<Rightarrow> mp_analyzer \<Rightarrow> error + mp_analyzer" where
  "get_mp_entries_full mp st =
     ebind (get_entries_in_chemsys mp (bulk_species_symbol st @ sub_species st))
       (\<lambda>bulk. Inr (st\<lparr>bulk_derived := bulk,
                       subs_set := collect_subs (sub_species st) bulk\<rparr>))"

text \<open>
  The dilute branch: the entries of the bulk system; the bulk entry fetched again when
  an \<^verbatim>\<open>mpid\<close> was given with it; then, for each substitutional element, the entries of
  the system extended by it that are not bulk entries, \<^verbatim>\<open>ValueError\<close> when the query
  gives none. (The test \<^verbatim>\<open>if not self.entries\<close> comes after the key
  \<^verbatim>\<open>'bulk_derived'\<close> has been written, so the dict is never empty there.)
\<close>

definition sub_entries_step :: "mp_rester \<Rightarrow> string list \<Rightarrow> string option list \<Rightarrow> string
    \<Rightarrow> (string \<times> entry list) list \<Rightarrow> error + (string \<times> entry list) list" where
  "sub_entries_step mp symbols bulk_entry_set sub_el d =
     ebind (get_entries_in_chemsys mp (symbols @ [sub_el]))
       (\<lambda>sub_entry_set.
          if sub_entry_set = [] then Inl ValueError
          else Inr (AList.update sub_el
                      (filter (\<lambda>entry. entry_id entry \<notin> set bulk_entry_set) sub_entry_set) d))"

definition get_mp_entries_dilute :: "mp_rester \<Rightarrow> mp_analyzer \<Rightarrow> bool
    \<Rightarrow> error + mp_analyzer" where
  "get_mp_entries_dilute mp st bce_override =
     ebind (get_entries_in_chemsys mp (bulk_species_symbol st))
       (\<lambda>bulk.
          ebind (if truthy (mpid st) \<and> bce_override
                 then ebind (get_entry_by_material_id mp (the (mpid st)))
                        (\<lambda>b. Inr (st\<lparr>bulk_derived := bulk, bulk_ce := Some b\<rparr>))
                 else Inr (st\<lparr>bulk_derived := bulk\<rparr>))
            (\<lambda>st'.
               ebind (for_each
                        (sub_entries_step mp (bulk_species_symbol st') (map entry_id bulk))
                        (sub_species st') [])
                 (\<lambda>d. Inr (st'\<lparr>subs_set := d\<rparr>))))"

definition get_mp_entries :: "mp_rester \<Rightarrow> mp_analyzer \<Rightarrow> bool \<Rightarrow> error + mp_analyzer" where
  "get_mp_entries mp st full_sub_approach =
     ebind (resolve_bulk mp st)
       (\<lambda>(st', bce_override).
          if full_sub_approach then get_mp_entries_full mp st'
          else get_mp_entries_dilute mp st' bce_override)"

subsection \<open>The stability of the bulk entry (\<^verbatim>\<open>analyze_GGA_chempots\<close>, first part)\<close>

text \<open>
  \<^verbatim>\<open>round(x, 4)\<close> on the reals: the nearest multiple of \<open>1/10000\<close>, a tie going to the
  even multiple as in Python 3.
\<close>

definition round_half_even :: "real \<Rightarrow> int" where
  "round_half_even x =
     (if x - of_int \<lfloor>x\<rfloor> < 1 / 2 then \<lfloor>x\<rfloor>
      else if 1 / 2 < x - of_int \<lfloor>x\<rfloor> then \<lfloor>x\<rfloor> + 1
      else if even \<lfloor>x\<rfloor> then \<lfloor>x\<rfloor> else \<lfloor>x\<rfloor> + 1)"

definition round4 :: "real \<Rightarrow> real" where
  "round4 x = of_int (round_half_even (x * 10000)) / 10000"

text \<open>The four branches of the stability report, named by the message each logs.\<close>

datatype stability = STABLE_KNOWN | STABLE_NEW | UNSTABLE_KNOWN_PHASE | UNSTABLE_NEW

definition stable_composition_exists :: "'pd phase_diagram_lib \<Rightarrow> 'pd \<Rightarrow> composition
    \<Rightarrow> bool" where
  "stable_composition_exists lib pd rc =
     list_ex (\<lambda>i. comp_eq (reduced_composition (composition i)) rc) (stable_entries lib pd)"

text \<open>
  The decomposition energy, the branch taken, and \<^verbatim>\<open>entry_list\<close> as the branch leaves
  it: only the second branch appends the bulk entry.
\<close>

definition classify_stability :: "'pd phase_diagram_lib \<Rightarrow> entry \<Rightarrow> composition
    \<Rightarrow> entry list \<Rightarrow> error + (real \<times> stability \<times> entry list)" where
  "classify_stability lib b rc entry_list =
     ebind (PhaseDiagram lib entry_list)
       (\<lambda>pd.
          let decomp_en = round4 (e_above_hull lib pd b);
              exists = stable_composition_exists lib pd rc
          in if decomp_en \<le> 0 \<and> exists then Inr (decomp_en, STABLE_KNOWN, entry_list)
             else if decomp_en \<le> 0 \<and> \<not> exists
               then Inr (decomp_en, STABLE_NEW, entry_list @ [b])
             else if exists then Inr (decomp_en, UNSTABLE_KNOWN_PHASE, entry_list)
             else Inr (decomp_en, UNSTABLE_NEW, entry_list))"

subsection \<open>The dilute merge (\<^verbatim>\<open>analyze_GGA_chempots\<close>, second part)\<close>

text \<open>
  The first loop: every facet of the bulk-only table is entered under the label of its
  sorted phases.
\<close>

definition bulk_facet :: "chem_lims \<Rightarrow> string \<Rightarrow> chem_lims \<Rightarrow> error + chem_lims" where
  "bulk_facet chem_lims key finchem_lims =
     (case diff_bulk_sub_phases (split_dash key) None of
        (blk, blknom, subnom) \<Rightarrow>
          ebind (dict_get chem_lims key)
            (\<lambda>v. Inr (AList.update blknom v (AList.update blknom [] finchem_lims))))"

definition bulk_facets :: "chem_lims \<Rightarrow> error + chem_lims" where
  "bulk_facets chem_lims = for_each (bulk_facet chem_lims) (map fst chem_lims) []"

text \<open>
  The \<^verbatim>\<open>'name-append'\<close> entry of the record under \<^verbatim>\<open>blknom\<close>: set to
  \<^verbatim>\<open>subnom\<close>, or extended by a dash and \<^verbatim>\<open>subnom\<close>. (Adding a string to a float
  is a \<^verbatim>\<open>TypeError\<close>.)
\<close>

definition name_append :: "string \<Rightarrow> string \<Rightarrow> chem_lims \<Rightarrow> error + chem_lims" where
  "name_append blknom subnom finchem_lims =
     ebind (dict_get finchem_lims blknom)
       (\<lambda>r. case map_of r (Str ''name-append'') of
               None \<Rightarrow>
                 Inr (AList.update blknom
                        (AList.update (Str ''name-append'') (Txt subnom) r) finchem_lims)
             | Some (Txt old) \<Rightarrow>
                 Inr (AList.update blknom
                        (AList.update (Str ''name-append'') (Txt (old @ ''-'' @ subnom)) r)
                        finchem_lims)
             | Some (Num x) \<Rightarrow> Inl TypeError)"


text \<open>
  The body of the loop over the facets of the solve augmented by \<^verbatim>\<open>sub_el\<close>;
  \<^verbatim>\<open>n\<close> is \<^verbatim>\<open>len(self.bulk_species_symbol)\<close>.
\<close>

definition merge_facet :: "'pd phase_diagram_lib \<Rightarrow> nat \<Rightarrow> string \<Rightarrow> chem_lims \<Rightarrow> string
    \<Rightarrow> chem_lims \<Rightarrow> error + chem_lims" where
  "merge_facet lib n sub_el chem_lims key finchem_lims =
     (case diff_bulk_sub_phases (split_dash key) (Some sub_el) of
        (blk, blknom, subnom) \<Rightarrow>
          if length blk + 1 = n then
            ebind
              (if blknom \<notin> set (map fst finchem_lims) then
                 ebind (dict_get chem_lims key)
                   (\<lambda>v. Inr (AList.update blknom v finchem_lims))
               else
                 ebind (dict_get chem_lims key)
                   (\<lambda>v. ebind (Element lib sub_el)
                      (\<lambda>el. ebind (dict_get v el)
                         (\<lambda>mu. ebind (dict_get finchem_lims blknom)
                            (\<lambda>r. Inr (AList.update blknom
                                         (AList.update (Str sub_el) mu r) finchem_lims))))))
              (name_append blknom subnom)
          else Inr finchem_lims)"

text \<open>
  The body of the loop over \<^verbatim>\<open>sub_species\<close>: the bulk entries and the entries of
  \<^verbatim>\<open>sub_el\<close> are solved together, and the facets are merged one by one.
\<close>

definition merge_sub_el :: "'pd phase_diagram_lib \<Rightarrow> mp_analyzer \<Rightarrow> entry list \<Rightarrow> string
    \<Rightarrow> chem_lims \<Rightarrow> error + chem_lims" where
  "merge_sub_el lib st entry_list sub_el finchem_lims =
     ebind (dict_get (subs_set st) sub_el)
       (\<lambda>subs.
          ebind (PhaseDiagram lib (entry_list @ subs))
            (\<lambda>pd.
               ebind (get_chempots_from_pd lib (bulk_ce st) pd)
                 (\<lambda>chem_lims.
                    for_each
                      (merge_facet lib (length (bulk_species_symbol st)) sub_el chem_lims)
                      (map fst chem_lims) finchem_lims)))"

definition merged_table :: "'pd phase_diagram_lib \<Rightarrow> mp_analyzer \<Rightarrow> entry list \<Rightarrow> chem_lims
    \<Rightarrow> error + chem_lims" where
  "merged_table lib st entry_list chem_lims =
     ebind (bulk_facets chem_lims)
       (for_each (merge_sub_el lib st entry_list) (sub_species st))"

text \<open>The check that follows the merge.\<close>

definition overdependent_chempot :: "mp_analyzer \<Rightarrow> chem_lims \<Rightarrow> bool" where
  "overdependent_chempot st finchem_lims =
     (length (map fst finchem_lims) \<noteq> length (bulk_species_symbol st))"

text \<open>
  The entries of the escalated solve: every list of \<^verbatim>\<open>subs_set\<close> is appended to
  \<^verbatim>\<open>entry_list\<close>.
\<close>

definition full_entry_list :: "mp_analyzer \<Rightarrow> entry list \<Rightarrow> entry list" where
  "full_entry_list st entry_list = entry_list @ concat (map snd (subs_set st))"

definition solve :: "'pd phase_diagram_lib \<Rightarrow> entry option \<Rightarrow> entry list
    \<Rightarrow> error + chem_lims" where
  "solve lib b entries = ebind (PhaseDiagram lib entries) (get_chempots_from_pd lib b)"

text \<open>
  \<^verbatim>\<open>entry_list\<close> is the list object \<^verbatim>\<open>self.entries['bulk_derived']\<close>, so what is
  appended to it is appended to that attribute; the analyzer is returned with the table.
\<close>

definition dilute_chempots :: "'pd phase_diagram_lib \<Rightarrow> mp_analyzer \<Rightarrow> chem_lims
    \<Rightarrow> error + (mp_analyzer \<times> chem_lims)" where
  "dilute_chempots lib st chem_lims =
     ebind (merged_table lib st (bulk_derived st) chem_lims)
       (\<lambda>finchem_lims.
          if \<not> overdependent_chempot st finchem_lims then Inr (st, finchem_lims)
          else
            ebind (solve lib (bulk_ce st) (full_entry_list st (bulk_derived st)))
              (\<lambda>chem_lims'.
                 Inr (st\<lparr>bulk_derived := full_entry_list st (bulk_derived st)\<rparr>,
                      chem_lims')))"

definition analyze_GGA_chempots :: "'pd phase_diagram_lib \<Rightarrow> mp_rester \<Rightarrow> mp_analyzer \<Rightarrow> bool
    \<Rightarrow> error + (mp_analyzer \<times> chem_lims)" where
  "analyze_GGA_chempots lib mp st0 full_sub_approach =
     ebind (get_mp_entries mp st0 full_sub_approach)
       (\<lambda>st1.
          case bulk_ce st1 of
            None \<Rightarrow> Inl AttributeError
          | Some b \<Rightarrow>
              ebind (classify_stability lib b (redcomp st1) (bulk_derived st1))
                (\<lambda>(decomp_en, status, entry_list).
                   ebind (solve lib (bulk_ce st1) entry_list)
                     (\<lambda>chem_lims.
                        if \<not> full_sub_approach
                        then dilute_chempots lib (st1\<lparr>bulk_derived := entry_list\<rparr>) chem_lims
                        else Inr (st1\<lparr>bulk_derived := entry_list\<rparr>, chem_lims))))"

subsection \<open>\<^verbatim>\<open>UserChemPotAnalyzer.read_phase_diagram_and_chempots\<close>\<close>

text \<open>
  The attributes of the analyzer that the method reads. Its constructor does not set
  \<^verbatim>\<open>bulk_species_symbol\<close>: the attribute is \<open>None\<close> unless the caller has set
  it. What the method finds on disk is the list of the entries that load from the folder
  \<^verbatim>\<open>PhaseDiagram\<close> (\<open>None\<close> when the folder does not exist; an entry that does not
  load is skipped) and the entry of \<^verbatim>\<open>bulk/vasprun.xml\<close> when that file exists.
\<close>

record user_analyzer =
  user_bulk_ce :: "entry option"
  user_sub_species :: "string list"
  user_bulk_species_symbol :: "string list option"

record local_files =
  phase_diagram_folder :: "entry list option"
  bulk_vasprun :: "entry option"

text \<open>
  The branch \<^verbatim>\<open>include_mp_entries = False\<close>. The counting loop reads
  \<^verbatim>\<open>eltcount[...]\<close>, a \<^verbatim>\<open>KeyError\<close> for an element that is no key. The keys of
  \<^verbatim>\<open>eltcount\<close> are the elements of the bulk composition, each once (Python fixes no
  order on the set they come from; the order of the composition is taken).
\<close>

definition count_element :: "entry \<Rightarrow> (string \<times> nat) list \<Rightarrow> error + (string \<times> nat) list" where
  "count_element pentry eltcount =
     (if is_element pentry then
        ebind (dict_get eltcount (hd (elements (composition pentry))))
          (\<lambda>n. Inr (AList.update (hd (elements (composition pentry))) (n + 1) eltcount))
      else Inr eltcount)"

text \<open>
  \<^verbatim>\<open>ComputedStructureEntry(s, 0.)\<close> for the structure \<^verbatim>\<open>s\<close> of one atom of
  \<^verbatim>\<open>elt\<close>.
\<close>

definition fake_entry :: "string \<Rightarrow> entry" where
  "fake_entry elt = \<lparr>entry_id = None, composition = [(elt, 1)], energy = 0\<rparr>"

definition add_fake_entries :: "entry \<Rightarrow> entry list \<Rightarrow> error + entry list" where
  "add_fake_entries b personal_entry_list =
     ebind (for_each count_element (personal_entry_list @ [b])
              (map (\<lambda>elt. (elt, 0)) (remdups (elements (composition b)))))
       (\<lambda>eltcount.
          Inr ((personal_entry_list @ [b])
               @ map fake_entry (map fst (filter (\<lambda>(elt, eltnum). eltnum = 0) eltcount))))"

text \<open>
  The separation of the bulk-associated entries. In its other branch the source calls
  the list \<^verbatim>\<open>sub_associated_entry_list\<close>, which is a \<^verbatim>\<open>TypeError\<close>.
\<close>

definition bulk_associated :: "string list \<Rightarrow> entry \<Rightarrow> bool" where
  "bulk_associated bulk_elements localentry =
     list_all (\<lambda>elt. elt \<in> set bulk_elements) (elements (composition localentry))"

fun separate :: "string list \<Rightarrow> entry list \<Rightarrow> entry list \<Rightarrow> entry list
    \<Rightarrow> error + (entry list \<times> entry list)" where
  "separate bulk_elements [] entry_list sub_associated_entry_list =
     Inr (entry_list, sub_associated_entry_list)"
| "separate bulk_elements (localentry # rest) entry_list sub_associated_entry_list =
     (if bulk_associated bulk_elements localentry
      then separate bulk_elements rest (entry_list @ [localentry]) sub_associated_entry_list
      else Inl TypeError)"

text \<open>
  The merge of the local pipeline. It reads \<^verbatim>\<open>self.bulk_species_symbol\<close>
  (\<^verbatim>\<open>AttributeError\<close> when unset) and looks \<^verbatim>\<open>mu\<close> up under the string
  \<^verbatim>\<open>sub_el\<close>.
\<close>

definition user_merge_facet :: "string list option \<Rightarrow> string \<Rightarrow> chem_lims \<Rightarrow> string
    \<Rightarrow> chem_lims \<Rightarrow> error + chem_lims" where
  "user_merge_facet symbols sub_el chem_lims key finchem_lims =
     (case diff_bulk_sub_phases (split_dash key) (Some sub_el) of
        (blk, blknom, subnom) \<Rightarrow>
          (case symbols of
             None \<Rightarrow> Inl AttributeError
           | Some species \<Rightarrow>
               if length blk + 1 = length species then
                 ebind
                   (if blknom \<notin> set (map fst finchem_lims) then
                      ebind (dict_get chem_lims key)
                        (\<lambda>v. Inr (AList.update blknom v finchem_lims))
                    else
                      ebind (dict_get chem_lims key)
                        (\<lambda>v. ebind (dict_get v (Str sub_el))
                           (\<lambda>mu. ebind (dict_get finchem_lims blknom)
                              (\<lambda>r. Inr (AList.update blknom
                                           (AList.update (Str sub_el) mu r) finchem_lims)))))
                   (name_append blknom subnom)
               else Inr finchem_lims))"

text \<open>
  The entries of \<^verbatim>\<open>sub_el\<close> are chosen by \<^verbatim>\<open>sub_el in entry.composition.elements\<close>,
  a string looked for in a list of \<^verbatim>\<open>Element\<close> objects.
\<close>

definition user_merge_sub_el :: "'pd phase_diagram_lib \<Rightarrow> user_analyzer \<Rightarrow> entry
    \<Rightarrow> entry list \<Rightarrow> entry list \<Rightarrow> string \<Rightarrow> chem_lims \<Rightarrow> error + chem_lims" where
  "user_merge_sub_el lib st b entry_list sub_associated_entry_list sub_el finchem_lims =
     ebind (solve lib (Some b)
              (entry_list
               @ filter (\<lambda>entry. Str sub_el \<in> set (map El (elements (composition entry))))
                   sub_associated_entry_list))
       (\<lambda>chem_lims.
          for_each (user_merge_facet (user_bulk_species_symbol st) sub_el chem_lims)
            (map fst chem_lims) finchem_lims)"

definition user_dilute_chempots :: "'pd phase_diagram_lib \<Rightarrow> user_analyzer \<Rightarrow> entry
    \<Rightarrow> entry list \<Rightarrow> error + chem_lims" where
  "user_dilute_chempots lib st b personal_entry_list =
     ebind (separate (elements (composition b)) personal_entry_list [] [])
       (\<lambda>(entry_list, sub_associated_entry_list).
          ebind (solve lib (Some b) entry_list)
            (\<lambda>chem_lims.
               ebind (bulk_facets chem_lims)
                 (for_each (user_merge_sub_el lib st b entry_list sub_associated_entry_list)
                    (user_sub_species st))))"

text \<open>
  The method with \<^verbatim>\<open>include_mp_entries = False\<close> (the other value first runs
  \<^verbatim>\<open>MPChemPotAnalyzer\<close> and then joins the same steps). It returns \<^verbatim>\<open>None\<close> when the
  folder is missing or no bulk entry is found. The attributes it writes
  (\<^verbatim>\<open>bulk_ce\<close>, \<^verbatim>\<open>bulk_composition\<close>, \<^verbatim>\<open>redcomp\<close>) are read nowhere but in
  the method itself and are values of the call here.
\<close>

definition read_phase_diagram_and_chempots :: "'pd phase_diagram_lib \<Rightarrow> local_files
    \<Rightarrow> user_analyzer \<Rightarrow> bool \<Rightarrow> error + chem_lims option" where
  "read_phase_diagram_and_chempots lib files st full_sub_approach =
     (case phase_diagram_folder files of
        None \<Rightarrow> Inr None
      | Some personal_entry_list \<Rightarrow>
          (case (case user_bulk_ce st of Some b \<Rightarrow> Some b | None \<Rightarrow> bulk_vasprun files) of
             None \<Rightarrow> Inr None
           | Some b \<Rightarrow>
               ebind (add_fake_entries b personal_entry_list)
                 (\<lambda>personal_entry_list'.
                    ebind (if full_sub_approach
                           then solve lib (Some b) (personal_entry_list' @ [b])
                           else user_dilute_chempots lib st b (personal_entry_list' @ [b]))
                      (\<lambda>chem_lims. Inr (Some chem_lims)))))"

subsection \<open>Notions used in the statements\<close>

text \<open>Whether a face goes to the substitutional list.\<close>

definition is_sub_face :: "string option \<Rightarrow> string \<Rightarrow> bool" where
  "is_sub_face sub_el face = (truthy sub_el \<and> str_in (the sub_el) face)"

text \<open>
  The frame of the merge: every record of the first table is still there in the second,
  with the same chemical potential under every \<^verbatim>\<open>Element\<close> key.
\<close>

definition kept :: "chem_lims \<Rightarrow> chem_lims \<Rightarrow> bool" where
  "kept fin fin' =
     (\<forall>k r. map_of fin k = Some r \<longrightarrow>
        (\<exists>r'. map_of fin' k = Some r' \<and> (\<forall>e. map_of r' (El e) = map_of r (El e))))"

text \<open>How many of the entries are entries of the one pure element \<^verbatim>\<open>elt\<close>.\<close>

definition pure_count :: "entry list \<Rightarrow> string \<Rightarrow> nat" where
  "pure_count ps elt =
     length (filter (\<lambda>p. is_element p \<and> hd (elements (composition p)) = elt) ps)"

subsection \<open>The equations of the phases of a facet\<close>

text \<open>
  The phases a label names: the pieces between its dashes. The empty label, which
  \<^verbatim>\<open>'-'.join\<close> gives for an empty list of phases, names none.
\<close>

definition label_phases :: "string \<Rightarrow> string list" where
  "label_phases label = (if label = [] then [] else split_dash label)"

text \<open>
  The chemical potential a vector holds for an element: the float under the key
  \<^verbatim>\<open>Element(e)\<close>.
\<close>

definition mu_of :: "chempots \<Rightarrow> string \<Rightarrow> real option" where
  "mu_of vec e = (case map_of vec (El e) of Some (Num x) \<Rightarrow> Some x | _ \<Rightarrow> None)"

text \<open>
  The left-hand side of the equation of a phase: the sum, over the elements of its
  composition, of the amount of the element times its chemical potential.
\<close>

definition phase_sum :: "chempots \<Rightarrow> composition \<Rightarrow> real" where
  "phase_sum vec c =
     sum_list (map (\<lambda>(e, n). real n * (case mu_of vec e of Some x \<Rightarrow> x | None \<Rightarrow> 0)) c)"

text \<open>
  A vector reproduces the energy of the phase a name stands for: the name is the name of
  an entry (\<open>phase_of\<close>; the names of the entries are the library's, so the naming is a
  parameter), the vector holds a potential for each element of the entry, and the sum
  is within \<open>1e-6\<close> of the energy of the entry.
\<close>

definition phase_ok :: "(string \<Rightarrow> entry option) \<Rightarrow> chempots \<Rightarrow> string \<Rightarrow> bool" where
  "phase_ok phase_of vec name =
     (case phase_of name of
        None \<Rightarrow> False
      | Some p \<Rightarrow>
          list_all (\<lambda>(e, n). mu_of vec e \<noteq> None) (composition p)
          \<and> \<bar>phase_sum vec (composition p) - energy p\<bar> \<le> 1 / 1000000)"

text \<open>The same for every phase of the label of a record, and for every record of a table.\<close>

definition record_ok :: "(string \<Rightarrow> entry option) \<Rightarrow> string \<Rightarrow> chempots \<Rightarrow> bool" where
  "record_ok phase_of label vec = list_all (phase_ok phase_of vec) (label_phases label)"

definition table_ok :: "(string \<Rightarrow> entry option) \<Rightarrow> chem_lims \<Rightarrow> bool" where
  "table_ok phase_of t = list_all (\<lambda>(label, vec). record_ok phase_of label vec) t"

text \<open>
  Modelled from the spec: the postcondition of the solver, \<^verbatim>\<open>get_all_chempots\<close> of the
  phase-diagram library (pymatgen), whose code is not in the repository. The
  specification of the solver gives it: for every returned (label, vector) pair,
  re-substituting the vector into each phase equation of that facet reproduces that
  phase's energy within numerical tolerance, the sum over the elements \<open>e\<close> of
  \<open>n(e) * mu(e)\<close> being equal to the energy of the phase within \<open>1e-6\<close>. It is stated of
  every table a call of \<^verbatim>\<open>get_all_chempots\<close> returns.
\<close>

definition solver_postcondition :: "'pd phase_diagram_lib \<Rightarrow> (string \<Rightarrow> entry option) \<Rightarrow> bool" where
  "solver_postcondition lib phase_of =
     (\<forall>pd comp t. get_all_chempots lib pd comp = Inr t \<longrightarrow> table_ok phase_of t)"

subsection \<open>A small system for the examples\<close>

text \<open>
  Two bulk elements \<open>A\<close> and \<open>B\<close>, the compound \<open>AB\<close>, a substitutional element \<open>S\<close>
  and its compound \<open>AS\<close>. The example library builds a diagram from any entries, reports
  a given energy above the hull and given stable entries, and answers with one table for
  entry lists in which \<open>S\<close> occurs and with another for the rest.
\<close>

definition ex_A :: entry where
  "ex_A = \<lparr>entry_id = Some ''mp-1'', composition = [(''A'', 1)], energy = 0\<rparr>"

definition ex_B :: entry where
  "ex_B = \<lparr>entry_id = Some ''mp-2'', composition = [(''B'', 1)], energy = 0\<rparr>"

definition ex_AB :: entry where
  "ex_AB = \<lparr>entry_id = None, composition = [(''A'', 1), (''B'', 1)], energy = - 2\<rparr>"

definition ex_S :: entry where
  "ex_S = \<lparr>entry_id = Some ''mp-4'', composition = [(''S'', 1)], energy = 0\<rparr>"

definition ex_AS :: entry where
  "ex_AS = \<lparr>entry_id = Some ''mp-5'', composition = [(''A'', 1), (''S'', 1)], energy = - 1\<rparr>"

definition ex_lib :: "real \<Rightarrow> entry list \<Rightarrow> chem_lims \<Rightarrow> chem_lims
    \<Rightarrow> entry list phase_diagram_lib" where
  "ex_lib en stable_list bulk_table sub_table =
     \<lparr>PhaseDiagram = Inr, all_entries = (\<lambda>pd. pd), stable_entries = (\<lambda>pd. stable_list),
      e_above_hull = (\<lambda>pd e. en),
      get_all_chempots = (\<lambda>pd comp.
         Inr (if list_ex (\<lambda>e. ''S'' \<in> set (elements (composition e))) pd
              then sub_table else bulk_table)),
      is_symbol = (\<lambda>s. s \<in> {''A'', ''B'', ''S''})\<rparr>"

definition ex_mp :: mp_rester where
  "ex_mp =
     \<lparr>get_entries_in_chemsys = (\<lambda>symbols.
         Inr (if ''S'' \<in> set symbols then [ex_A, ex_B, ex_S, ex_AS] else [ex_A, ex_B])),
      get_entry_by_material_id = (\<lambda>i. Inl MPRestError)\<rparr>"

definition ex_analyzer :: "string list \<Rightarrow> mp_analyzer" where
  "ex_analyzer subs =
     \<lparr>bulk_ce = Some ex_AB, sub_species = subs, mpid = None, bulk_derived = [],
      subs_set = [], bulk_species_symbol = [], redcomp = []\<rparr>"

definition ex_mu :: "real \<Rightarrow> real \<Rightarrow> chempots" where
  "ex_mu a b = [(El ''A'', Num a), (El ''B'', Num b)]"

definition ex_mu3 :: "real \<Rightarrow> real \<Rightarrow> real \<Rightarrow> chempots" where
  "ex_mu3 a b c = [(El ''A'', Num a), (El ''B'', Num b), (El ''S'', Num c)]"

definition ex_fin :: chem_lims where
  "ex_fin = [(''A-AB'', ex_mu 0 (- 2)), (''AB-B'', ex_mu (- 2) 0)]"

definition ex_sub_table :: chem_lims where
  "ex_sub_table =
     [(''A-AB-AS'', ex_mu3 0 (- 2) (- 1)), (''AB-AS-S'', ex_mu3 (- 1) (- 1) 0),
      (''AB-S-SB'', ex_mu3 (- 2) 0 (- 3))]"

definition ex_fin1 :: chem_lims where
  "ex_fin1 = ex_fin @ [(''AB'', ex_mu3 (- 1) (- 1) 0 @ [(Str ''name-append'', Txt ''AS-S'')])]"

definition ex_fin2 :: chem_lims where
  "ex_fin2 = ex_fin @
     [(''AB'', ex_mu3 (- 1) (- 1) 0
               @ [(Str ''name-append'', Txt ''AS-S-S-SB''), (Str ''S'', Num (- 3))])]"

definition ex_dilute :: mp_analyzer where
  "ex_dilute = (ex_analyzer [''S''])
     \<lparr>bulk_derived := [ex_A, ex_B], subs_set := [(''S'', [ex_S, ex_AS])],
      bulk_species_symbol := [''A'', ''B''], redcomp := [(''A'', 1), (''B'', 1)]\<rparr>"





definition ex_raw :: chem_lims where
  "ex_raw = [(''AB-A'', ex_mu 0 (- 2)), (''AB-B'', ex_mu (- 2) 0)]"

definition ex_new_raw :: "entry list phase_diagram_lib" where
  "ex_new_raw = ex_lib (- 1 / 100) [ex_A, ex_B] ex_raw ex_sub_table"

definition ex_new :: "entry list phase_diagram_lib" where
  "ex_new = ex_lib (- 1 / 100) [ex_A, ex_B] ex_fin ex_sub_table"

definition ex_bulk_only :: mp_analyzer where
  "ex_bulk_only = (ex_analyzer [])
     \<lparr>bulk_derived := [ex_A, ex_B], bulk_species_symbol := [''A'', ''B''],
      redcomp := [(''A'', 1), (''B'', 1)]\<rparr>"

definition ex_user :: user_analyzer where
  "ex_user = \<lparr>user_bulk_ce = Some ex_AB, user_sub_species = [''S''],
              user_bulk_species_symbol = None\<rparr>"

definition ex_files :: "entry list \<Rightarrow> local_files" where
  "ex_files loaded = \<lparr>phase_diagram_folder = Some loaded, bulk_vasprun = None\<rparr>"

definition ex_fake_B :: entry where
  "ex_fake_B = \<lparr>entry_id = None, composition = [(''B'', 1)], energy = 0\<rparr>"
text \<open>
  The same system with sulfur, as the library solves it around \<open>AB\<close>: the three facets
  of the augmented diagram, each with the vector that solves the equations of its three
  phases; the names of the five entries; and the analyzer after a stability step that
  has appended the bulk entry.
\<close>

definition ex_hull_sub :: chem_lims where
  "ex_hull_sub =
     [(''A-AB-AS'', ex_mu3 0 (- 2) (- 1)), (''AB-AS-S'', ex_mu3 (- 1) (- 1) 0),
      (''AB-B-S'', ex_mu3 (- 2) 0 0)]"

definition ex_ok :: "entry list phase_diagram_lib" where
  "ex_ok = ex_lib (- 1 / 100) [ex_A, ex_B] ex_fin ex_hull_sub"

definition ex_phase :: "string \<Rightarrow> entry option" where
  "ex_phase name =
     (if name = ''A'' then Some ex_A else if name = ''B'' then Some ex_B
      else if name = ''AB'' then Some ex_AB else if name = ''S'' then Some ex_S
      else if name = ''AS'' then Some ex_AS else None)"



section \<open>Properties\<close>

subsection \<open>Auxiliary facts\<close>

lemma diff_loop_filter:
  "diff_loop sub_el faces blk sub_spcs =
     (blk @ filter (\<lambda>f. \<not> is_sub_face sub_el f) faces,
      sub_spcs @ filter (is_sub_face sub_el) faces)"
  by (induction faces arbitrary: blk sub_spcs) (simp_all add: is_sub_face_def)

lemma diff_sorted_filter:
  "diff_sorted face_list sub_el =
     (sort (filter (\<lambda>f. \<not> is_sub_face sub_el f) face_list),
      sort (filter (is_sub_face sub_el) face_list))"
  by (simp add: diff_sorted_def diff_loop_filter)

lemma sort_mset_cong:
  fixes xs ys :: "string list"
  assumes "mset xs = mset ys"
  shows "sort xs = sort ys"
proof -
  have "sorted_list_of_multiset (mset xs) = sorted_list_of_multiset (mset ys)"
    using assms by simp
  then show ?thesis by simp
qed


lemma str_in_iff: "str_in sub s \<longleftrightarrow> (\<exists>ps ss. s = ps @ sub @ ss)"
proof (induction s)
  case Nil
  then show ?case by auto
next
  case (Cons c cs)
  have take_eq: "take (length sub) (c # cs) = sub \<longleftrightarrow> (\<exists>ss. c # cs = sub @ ss)"
    by (metis append_eq_conv_conj)
  have "(\<exists>ps ss. c # cs = ps @ sub @ ss) \<longleftrightarrow>
        (\<exists>ss. c # cs = sub @ ss) \<or> (\<exists>ps ss. cs = ps @ sub @ ss)"
  proof
    assume "\<exists>ps ss. c # cs = ps @ sub @ ss"
    then obtain ps ss where eq: "c # cs = ps @ sub @ ss" by blast
    show "(\<exists>ss. c # cs = sub @ ss) \<or> (\<exists>ps ss. cs = ps @ sub @ ss)"
    proof (cases ps)
      case Nil
      with eq show ?thesis by auto
    next
      case (Cons p ps')
      with eq have "cs = ps' @ sub @ ss" by simp
      then show ?thesis by blast
    qed
  next
    assume "(\<exists>ss. c # cs = sub @ ss) \<or> (\<exists>ps ss. cs = ps @ sub @ ss)"
    then show "\<exists>ps ss. c # cs = ps @ sub @ ss"
    proof
      assume "\<exists>ss. c # cs = sub @ ss"
      then obtain ss where "c # cs = [] @ sub @ ss" by auto
      then show ?thesis by blast
    next
      assume "\<exists>ps ss. cs = ps @ sub @ ss"
      then obtain ps ss where "c # cs = (c # ps) @ sub @ ss" by auto
      then show ?thesis by blast
    qed
  qed
  with Cons take_eq show ?case by simp
qed

lemma ebind_Inl [simp]: "ebind (Inl e) f = Inl e" by (simp add: ebind_def)
lemma ebind_Inr [simp]: "ebind (Inr x) f = f x" by (simp add: ebind_def)
lemma ebind_eq_Inr: "ebind m f = Inr y \<longleftrightarrow> (\<exists>x. m = Inr x \<and> f x = Inr y)"
  by (cases m) simp_all

lemma dict_get_eq_Inr: "dict_get d k = Inr v \<longleftrightarrow> map_of d k = Some v"
  by (simp add: dict_get_def split: option.splits)


lemma for_each_invariant:
  assumes "for_each body xs s = Inr s'" and "I s"
    and "\<And>x t t'. body x t = Inr t' \<Longrightarrow> I t \<Longrightarrow> I t'"
  shows "I s'"
  using assms(1,2)
proof (induction xs arbitrary: s)
  case Nil
  then show ?case by simp
next
  case (Cons x xs)
  from Cons.prems(1) obtain t where b: "body x s = Inr t" and r: "for_each body xs t = Inr s'"
    by (auto split: sum.splits)
  from assms(3) [OF b Cons.prems(2)] have "I t" .
  with Cons.IH [OF r] show ?case .
qed


lemma name_append_Inr:
  assumes "name_append blknom subnom fin = Inr fin'"
  obtains r t where "map_of fin blknom = Some r"
    and "fin' = AList.update blknom (AList.update (Str ''name-append'') (Txt t) r) fin"
    and "t = (case map_of r (Str ''name-append'') of
                Some (Txt old) \<Rightarrow> old @ ''-'' @ subnom | _ \<Rightarrow> subnom)"
proof -
  from assms obtain r where r: "map_of fin blknom = Some r"
    by (auto simp: name_append_def ebind_eq_Inr dict_get_eq_Inr)
  show ?thesis
  proof (cases "map_of r (Str ''name-append'')")
    case None
    with assms r that show ?thesis by (simp add: name_append_def dict_get_def)
  next
    case (Some y)
    show ?thesis
    proof (cases y)
      case (Num x)
      with assms r Some show ?thesis by (simp add: name_append_def dict_get_def)
    next
      case (Txt old)
      with assms r Some that show ?thesis by (simp add: name_append_def dict_get_def)
    qed
  qed
qed

lemma merge_facet_absent:
  assumes d: "diff_bulk_sub_phases (split_dash key) (Some sub_el) = (blk, blknom, subnom)"
    and acc: "length blk + 1 = n"
    and absent: "blknom \<notin> fst ` set fin"
    and m: "merge_facet lib n sub_el chem_lims key fin = Inr fin'"
  obtains v where "dict_get chem_lims key = Inr v"
    and "fin' = AList.update blknom
                  (AList.update (Str ''name-append'')
                     (Txt (case map_of v (Str ''name-append'') of
                             Some (Txt old) \<Rightarrow> old @ ''-'' @ subnom | _ \<Rightarrow> subnom)) v) fin"
proof -
  from m d acc absent
  have e: "ebind (ebind (dict_get chem_lims key) (\<lambda>v. Inr (AList.update blknom v fin)))
             (name_append blknom subnom) = Inr fin'"
    by (simp add: merge_facet_def)
  then obtain v where v: "dict_get chem_lims key = Inr v"
    and na: "name_append blknom subnom (AList.update blknom v fin) = Inr fin'"
    by (cases "dict_get chem_lims key") simp_all
  from na obtain r t where r: "map_of (AList.update blknom v fin) blknom = Some r"
    and f: "fin' = AList.update blknom (AList.update (Str ''name-append'') (Txt t) r)
                     (AList.update blknom v fin)"
    and t: "t = (case map_of r (Str ''name-append'') of
                   Some (Txt old) \<Rightarrow> old @ ''-'' @ subnom | _ \<Rightarrow> subnom)"
    by (rule name_append_Inr)
  from r have "r = v" by (simp add: update_conv')
  with f t v that show ?thesis by simp
qed

lemma merge_facet_present:
  assumes d: "diff_bulk_sub_phases (split_dash key) (Some sub_el) = (blk, blknom, subnom)"
    and acc: "length blk + 1 = n"
    and present: "blknom \<in> fst ` set fin"
    and m: "merge_facet lib n sub_el chem_lims key fin = Inr fin'"
  obtains v mu r0 where "dict_get chem_lims key = Inr v" and "is_symbol lib sub_el"
    and "map_of v (El sub_el) = Some mu" and "map_of fin blknom = Some r0"
    and "fin' = AList.update blknom
                  (AList.update (Str ''name-append'')
                     (Txt (case map_of (AList.update (Str sub_el) mu r0) (Str ''name-append'') of
                             Some (Txt old) \<Rightarrow> old @ ''-'' @ subnom | _ \<Rightarrow> subnom))
                     (AList.update (Str sub_el) mu r0)) fin"
proof -
  from m d acc present
  have e: "ebind (ebind (dict_get chem_lims key)
             (\<lambda>v. ebind (Element lib sub_el)
                (\<lambda>el. ebind (dict_get v el)
                   (\<lambda>mu. ebind (dict_get fin blknom)
                      (\<lambda>r. Inr (AList.update blknom (AList.update (Str sub_el) mu r) fin))))))
             (name_append blknom subnom) = Inr fin'"
    by (simp add: merge_facet_def)
  then obtain v where v: "dict_get chem_lims key = Inr v"
    by (cases "dict_get chem_lims key") simp_all
  from e v have sy: "is_symbol lib sub_el"
    by (cases "is_symbol lib sub_el") (simp_all add: Element_def)
  from e v sy obtain mu where mu: "dict_get v (El sub_el) = Inr mu"
    by (cases "dict_get v (El sub_el)") (simp_all add: Element_def)
  from e v sy mu obtain r0 where r0: "dict_get fin blknom = Inr r0"
    by (cases "dict_get fin blknom") (simp_all add: Element_def)
  from e v sy mu r0
  have na: "name_append blknom subnom
              (AList.update blknom (AList.update (Str sub_el) mu r0) fin) = Inr fin'"
    by (simp add: Element_def)
  from na obtain r t
    where r: "map_of (AList.update blknom (AList.update (Str sub_el) mu r0) fin) blknom = Some r"
    and f: "fin' = AList.update blknom (AList.update (Str ''name-append'') (Txt t) r)
                     (AList.update blknom (AList.update (Str sub_el) mu r0) fin)"
    and t: "t = (case map_of r (Str ''name-append'') of
                   Some (Txt old) \<Rightarrow> old @ ''-'' @ subnom | _ \<Rightarrow> subnom)"
    by (rule name_append_Inr)
  from r have "r = AList.update (Str sub_el) mu r0" by (simp add: update_conv')
  with f t have "fin' = AList.update blknom
                  (AList.update (Str ''name-append'')
                     (Txt (case map_of (AList.update (Str sub_el) mu r0) (Str ''name-append'') of
                             Some (Txt old) \<Rightarrow> old @ ''-'' @ subnom | _ \<Rightarrow> subnom))
                     (AList.update (Str sub_el) mu r0)) fin"
    by simp
  with v sy mu r0 that show ?thesis by (simp add: dict_get_eq_Inr)
qed


lemma map_of_None_iff: "map_of al k = None \<longleftrightarrow> k \<notin> fst ` set al"
  by (simp add: map_of_eq_None_iff)

lemma merge_facet_step_frame:
  assumes m: "merge_facet lib n sub_el chem_lims key fin = Inr fin'"
    and k: "map_of fin k = Some r"
  shows "\<exists>r'. map_of fin' k = Some r'
           \<and> (\<forall>x. x \<noteq> Str sub_el \<and> x \<noteq> Str ''name-append'' \<longrightarrow> map_of r' x = map_of r x)"
proof -
  obtain blk blknom subnom
    where d: "diff_bulk_sub_phases (split_dash key) (Some sub_el) = (blk, blknom, subnom)"
    by (metis prod_cases3)
  show ?thesis
  proof (cases "length blk + 1 = n")
    case False
    with m d have "fin' = fin" by (simp add: merge_facet_def)
    with k show ?thesis by simp
  next
    case acc: True
    show ?thesis
    proof (cases "blknom \<in> fst ` set fin")
      case False
      then have "map_of fin blknom = None" by (simp add: map_of_None_iff)
      with k have ne: "k \<noteq> blknom" by auto
      from merge_facet_absent [OF d acc False m] obtain R
        where "fin' = AList.update blknom R fin" by metis
      with ne k show ?thesis by (simp add: update_conv')
    next
      case True
      from merge_facet_present [OF d acc True m] obtain mu r0 t
        where r0: "map_of fin blknom = Some r0"
        and f: "fin' = AList.update blknom
                  (AList.update (Str ''name-append'') (Txt t) (AList.update (Str sub_el) mu r0))
                  fin"
        by metis
      show ?thesis
      proof (cases "k = blknom")
        case True
        with k r0 have "r0 = r" by simp
        with f True show ?thesis by (simp add: update_conv')
      next
        case False
        with f k show ?thesis by (simp add: update_conv')
      qed
    qed
  qed
qed

lemma kept_refl: "kept fin fin"
  by (simp add: kept_def)

lemma kept_trans: "kept a b \<Longrightarrow> kept b c \<Longrightarrow> kept a c"
  unfolding kept_def by (metis (no_types, lifting))

lemma merge_facet_kept:
  assumes "merge_facet lib n sub_el chem_lims key fin = Inr fin'"
  shows "kept fin fin'"
  unfolding kept_def
proof (intro allI impI)
  fix k r
  assume "map_of fin k = Some r"
  from merge_facet_step_frame [OF assms this]
  show "\<exists>r'. map_of fin' k = Some r' \<and> (\<forall>e. map_of r' (El e) = map_of r (El e))"
    by auto
qed

lemma merge_facets_kept:
  assumes "for_each (merge_facet lib n sub_el chem_lims) keys fin = Inr fin'"
  shows "kept fin fin'"
proof (rule for_each_invariant [OF assms, where I = "kept fin"])
  show "kept fin fin" by (rule kept_refl)
next
  fix x t t'
  assume "merge_facet lib n sub_el chem_lims x t = Inr t'" and "kept fin t"
  then show "kept fin t'" using merge_facet_kept kept_trans by blast
qed

lemma merge_sub_el_kept:
  assumes "merge_sub_el lib st entry_list sub_el fin = Inr fin'"
  shows "kept fin fin'"
proof -
  from assms obtain chem_lims
    where "for_each (merge_facet lib (length (bulk_species_symbol st)) sub_el chem_lims)
             (map fst chem_lims) fin = Inr fin'"
    by (auto simp: merge_sub_el_def ebind_eq_Inr)
  then show ?thesis by (rule merge_facets_kept)
qed


subsection \<open>The partition of a facet\<close>

text \<open>
  What the partition does for every phase list and target: the list joined into
  \<^verbatim>\<open>subnom\<close> holds the faces in which the target string occurs (none when the target
  is unset or empty), the bulk list holds the others, and every face, counted with its
  multiplicity, is in exactly one of the two.
\<close>

lemma diff_sorted_partition:
  "fst (diff_bulk_sub_phases face_list sub_el) = fst (diff_sorted face_list sub_el)
   \<and> fst (snd (diff_bulk_sub_phases face_list sub_el))
       = join_dash (fst (diff_sorted face_list sub_el))
   \<and> snd (snd (diff_bulk_sub_phases face_list sub_el))
       = join_dash (snd (diff_sorted face_list sub_el))
   \<and> mset (fst (diff_sorted face_list sub_el)) =
       filter_mset (\<lambda>f. \<not> (truthy sub_el \<and> str_in (the sub_el) f)) (mset face_list)
   \<and> mset (snd (diff_sorted face_list sub_el)) =
       filter_mset (\<lambda>f. truthy sub_el \<and> str_in (the sub_el) f) (mset face_list)
   \<and> mset (fst (diff_sorted face_list sub_el)) + mset (snd (diff_sorted face_list sub_el))
       = mset face_list
   \<and> diff_sorted face_list None = (sort face_list, [])
   \<and> diff_sorted face_list (Some []) = (sort face_list, [])"
proof -
  have a: "fst (diff_bulk_sub_phases face_list sub_el) = fst (diff_sorted face_list sub_el)"
    by (simp add: diff_bulk_sub_phases_def split: prod.splits)
  have b: "fst (snd (diff_bulk_sub_phases face_list sub_el))
             = join_dash (fst (diff_sorted face_list sub_el))"
    by (simp add: diff_bulk_sub_phases_def split: prod.splits)
  have c: "snd (snd (diff_bulk_sub_phases face_list sub_el))
             = join_dash (snd (diff_sorted face_list sub_el))"
    by (simp add: diff_bulk_sub_phases_def split: prod.splits)
  have d: "mset (fst (diff_sorted face_list sub_el)) =
             filter_mset (\<lambda>f. \<not> (truthy sub_el \<and> str_in (the sub_el) f)) (mset face_list)"
    by (simp add: diff_sorted_filter is_sub_face_def)
  have e: "mset (snd (diff_sorted face_list sub_el)) =
             filter_mset (\<lambda>f. truthy sub_el \<and> str_in (the sub_el) f) (mset face_list)"
    by (simp add: diff_sorted_filter is_sub_face_def)
  have f: "mset (fst (diff_sorted face_list sub_el)) + mset (snd (diff_sorted face_list sub_el))
             = mset face_list"
    unfolding d e by (induction face_list) simp_all
  have g: "diff_sorted face_list None = (sort face_list, [])"
    by (simp add: diff_sorted_filter is_sub_face_def)
  have h: "diff_sorted face_list (Some []) = (sort face_list, [])"
    by (simp add: diff_sorted_filter is_sub_face_def)
  from a b c d e f g h show ?thesis by blast
qed

text \<open>
  C5. The bulk list of \<^verbatim>\<open>diff_bulk_sub_phases\<close> is to hold exactly the phases that do
  not contain the target element. The test of the loop is \<^verbatim>\<open>sub_el in face\<close> on the two
  strings, so a phase counts as containing the element whenever the symbol of the element
  occurs in its label as a substring. With sulfur \<^verbatim>\<open>'S'\<close> as the target, silicon
  \<^verbatim>\<open>'Si'\<close> and silicon carbide \<^verbatim>\<open>'SiC'\<close>, which hold no sulfur, go to the
  substitutional list and only carbon stays in the bulk list; on a facet of silicon
  carbide with sulfur, \<^verbatim>\<open>'C-SiC-SiS2'\<close>, the bulk compound itself leaves the bulk list.
  With carbon as the target the first facet is divided as it should be.
\<close>

theorem diff_bulk_sub_phases_substring_test:
  "str_in ''S'' ''Si'' \<and> str_in ''S'' ''SiC'' \<and> \<not> str_in ''S'' ''C''
   \<and> diff_bulk_sub_phases [''Si'', ''SiC'', ''C''] (Some ''S'') = ([''C''], ''C'', ''Si-SiC'')
   \<and> diff_bulk_sub_phases (split_dash ''C-SiC-SiS2'') (Some ''S'')
       = ([''C''], ''C'', ''SiC-SiS2'')
   \<and> diff_bulk_sub_phases [''Si'', ''SiC'', ''C''] (Some ''C'')
       = ([''Si''], ''Si'', ''C-SiC'')"
proof -
  have a: "str_in ''S'' ''Si''" by simp
  have b: "str_in ''S'' ''SiC''" by simp
  have c: "\<not> str_in ''S'' ''C''" by simp
  have d: "diff_bulk_sub_phases [''Si'', ''SiC'', ''C''] (Some ''S'')
             = ([''C''], ''C'', ''Si-SiC'')"
    by (simp add: diff_bulk_sub_phases_def diff_sorted_def)
  have e: "diff_bulk_sub_phases (split_dash ''C-SiC-SiS2'') (Some ''S'')
             = ([''C''], ''C'', ''SiC-SiS2'')"
    by (simp add: diff_bulk_sub_phases_def diff_sorted_def)
  have f: "diff_bulk_sub_phases [''Si'', ''SiC'', ''C''] (Some ''C'')
             = ([''Si''], ''Si'', ''C-SiC'')"
    by (simp add: diff_bulk_sub_phases_def diff_sorted_def)
  from a b c d e f show ?thesis by blast
qed

text \<open>
  C6. \<^verbatim>\<open>diff_bulk_sub_phases\<close> is a function of the multiset of its phases: on a
  phase list and on any permutation of it the three results, the sorted bulk list and
  the two labels, are the same. (As a HOL function it is total and has no effect.)
\<close>

theorem diff_bulk_sub_phases_permutation_invariant:
  assumes "mset face_list = mset face_list'"
  shows "diff_bulk_sub_phases face_list sub_el = diff_bulk_sub_phases face_list' sub_el"
proof -
  have "mset (filter P face_list) = mset (filter P face_list')" for P :: "string \<Rightarrow> bool"
    using assms by (metis mset_filter)
  then have "sort (filter P face_list) = sort (filter P face_list')" for P :: "string \<Rightarrow> bool"
    by (rule sort_mset_cong)
  then have "diff_sorted face_list sub_el = diff_sorted face_list' sub_el"
    by (simp add: diff_sorted_filter)
  then show ?thesis by (simp add: diff_bulk_sub_phases_def)
qed

theorem diff_bulk_sub_phases_permutation_invariant_witness:
  "mset [''B'', ''A2B3'', ''SB''] = mset [''SB'', ''B'', ''A2B3'']
   \<and> diff_bulk_sub_phases [''B'', ''A2B3'', ''SB''] (Some ''S'')
       = diff_bulk_sub_phases [''SB'', ''B'', ''A2B3''] (Some ''S'')
   \<and> diff_bulk_sub_phases [''SB'', ''B'', ''A2B3''] (Some ''S'')
       = ([''A2B3'', ''B''], ''A2B3-B'', ''SB'')"
proof -
  have m: "mset [''B'', ''A2B3'', ''SB''] = mset [''SB'', ''B'', ''A2B3'']"
    by simp
  have v: "diff_bulk_sub_phases [''SB'', ''B'', ''A2B3''] (Some ''S'')
             = ([''A2B3'', ''B''], ''A2B3-B'', ''SB'')"
    by (simp add: diff_bulk_sub_phases_def diff_sorted_def)
  from m v diff_bulk_sub_phases_permutation_invariant [OF m, of "Some ''S''"]
  show ?thesis by simp
qed

subsection \<open>The stability step\<close>

lemma round_half_even_close: "\<bar>of_int (round_half_even x) - x\<bar> \<le> 1 / 2"
proof -
  have "of_int \<lfloor>x\<rfloor> \<le> x" and "x < of_int \<lfloor>x\<rfloor> + 1" by linarith+
  then show ?thesis unfolding round_half_even_def by (auto simp: abs_le_iff)
qed

lemma round4_close: "\<bar>round4 x - x\<bar> \<le> 1 / 20000"
proof -
  have "\<bar>of_int (round_half_even (x * 10000)) - x * 10000\<bar> \<le> 1 / 2"
    by (rule round_half_even_close)
  then show ?thesis unfolding round4_def by (simp add: abs_le_iff field_simps)
qed

text \<open>
  C2. When the diagram of \<^verbatim>\<open>entry_list\<close> can be built, the stability step returns the
  decomposition energy, which is the energy above the hull of the bulk entry rounded to
  four decimal places (a multiple of \<open>1/10000\<close> at most \<open>1/20000\<close> away from it), takes
  the branch the two tests select, and leaves \<^verbatim>\<open>entry_list\<close> as it was except in the
  branch \<open>STABLE_NEW\<close>, where the bulk entry is appended once and the length grows by
  one.
\<close>

theorem classify_stability_appends_only_when_stable_new:
  assumes "PhaseDiagram lib entry_list = Inr pd"
  shows "\<exists>status entry_list'.
           classify_stability lib b rc entry_list
             = Inr (round4 (e_above_hull lib pd b), status, entry_list')
           \<and> \<bar>round4 (e_above_hull lib pd b) - e_above_hull lib pd b\<bar> \<le> 1 / 20000
           \<and> round4 (e_above_hull lib pd b) * 10000
               = of_int (round_half_even (e_above_hull lib pd b * 10000))
           \<and> status =
               (if round4 (e_above_hull lib pd b) \<le> 0
                then (if stable_composition_exists lib pd rc then STABLE_KNOWN else STABLE_NEW)
                else (if stable_composition_exists lib pd rc then UNSTABLE_KNOWN_PHASE
                      else UNSTABLE_NEW))
           \<and> entry_list' = (if status = STABLE_NEW then entry_list @ [b] else entry_list)
           \<and> length entry_list'
               = (if status = STABLE_NEW then length entry_list + 1 else length entry_list)"
proof -
  have r: "round4 (e_above_hull lib pd b) * 10000
             = of_int (round_half_even (e_above_hull lib pd b * 10000))"
    by (simp add: round4_def)
  show ?thesis
    using assms r round4_close [of "e_above_hull lib pd b"]
    by (simp add: classify_stability_def Let_def)
qed

theorem classify_stability_appends_only_when_stable_new_witness:
  "classify_stability (ex_lib (- 1 / 100) [ex_A, ex_B] [] []) ex_AB
       [(''A'', 1), (''B'', 1)] [ex_A, ex_B]
     = Inr (- 1 / 100, STABLE_NEW, [ex_A, ex_B, ex_AB])
   \<and> classify_stability (ex_lib 0 [ex_A, ex_B, ex_AB] [] []) ex_AB
       [(''A'', 1), (''B'', 1)] [ex_A, ex_B, ex_AB]
     = Inr (0, STABLE_KNOWN, [ex_A, ex_B, ex_AB])"
proof -
  let ?L1 = "ex_lib (- 1 / 100) [ex_A, ex_B] [] []"
  let ?L2 = "ex_lib 0 [ex_A, ex_B, ex_AB] [] []"
  let ?rc = "[(''A'', 1::nat), (''B'', 1)]"
  have p1: "PhaseDiagram ?L1 [ex_A, ex_B] = Inr [ex_A, ex_B]"
    by (simp add: ex_lib_def)
  have p2: "PhaseDiagram ?L2 [ex_A, ex_B, ex_AB] = Inr [ex_A, ex_B, ex_AB]"
    by (simp add: ex_lib_def)
  have r1: "round4 (e_above_hull ?L1 [ex_A, ex_B] ex_AB) = - 1 / 100"
    by (simp add: ex_lib_def round4_def round_half_even_def)
  have r2: "round4 (e_above_hull ?L2 [ex_A, ex_B, ex_AB] ex_AB) = 0"
    by (simp add: ex_lib_def round4_def round_half_even_def)
  have s1: "\<not> stable_composition_exists ?L1 [ex_A, ex_B] ?rc"
    by (simp add: stable_composition_exists_def ex_lib_def comp_eq_def reduced_composition_def
        elements_def amount_def ex_A_def ex_B_def)
  have s2: "stable_composition_exists ?L2 [ex_A, ex_B, ex_AB] ?rc"
    by (simp add: stable_composition_exists_def ex_lib_def comp_eq_def reduced_composition_def
        elements_def amount_def ex_A_def ex_B_def ex_AB_def)
  from classify_stability_appends_only_when_stable_new [OF p1, of ex_AB ?rc]
  obtain status1 el1
    where c1: "classify_stability ?L1 ex_AB ?rc [ex_A, ex_B]
                 = Inr (round4 (e_above_hull ?L1 [ex_A, ex_B] ex_AB), status1, el1)"
    and st1: "status1 =
               (if round4 (e_above_hull ?L1 [ex_A, ex_B] ex_AB) \<le> 0
                then (if stable_composition_exists ?L1 [ex_A, ex_B] ?rc
                      then STABLE_KNOWN else STABLE_NEW)
                else (if stable_composition_exists ?L1 [ex_A, ex_B] ?rc
                      then UNSTABLE_KNOWN_PHASE else UNSTABLE_NEW))"
    and e1: "el1 = (if status1 = STABLE_NEW then [ex_A, ex_B] @ [ex_AB] else [ex_A, ex_B])"
    by blast
  from st1 s1 have "status1 = STABLE_NEW" unfolding r1 by simp
  with c1 e1 have a: "classify_stability ?L1 ex_AB ?rc [ex_A, ex_B]
                        = Inr (- 1 / 100, STABLE_NEW, [ex_A, ex_B, ex_AB])"
    unfolding r1 by simp
  from classify_stability_appends_only_when_stable_new [OF p2, of ex_AB ?rc]
  obtain status2 el2
    where c2: "classify_stability ?L2 ex_AB ?rc [ex_A, ex_B, ex_AB]
                 = Inr (round4 (e_above_hull ?L2 [ex_A, ex_B, ex_AB] ex_AB), status2, el2)"
    and st2: "status2 =
               (if round4 (e_above_hull ?L2 [ex_A, ex_B, ex_AB] ex_AB) \<le> 0
                then (if stable_composition_exists ?L2 [ex_A, ex_B, ex_AB] ?rc
                      then STABLE_KNOWN else STABLE_NEW)
                else (if stable_composition_exists ?L2 [ex_A, ex_B, ex_AB] ?rc
                      then UNSTABLE_KNOWN_PHASE else UNSTABLE_NEW))"
    and e2: "el2 = (if status2 = STABLE_NEW then [ex_A, ex_B, ex_AB] @ [ex_AB]
                    else [ex_A, ex_B, ex_AB])"
    by blast
  from st2 s2 have "status2 = STABLE_KNOWN" unfolding r2 by simp
  with c2 e2 have b: "classify_stability ?L2 ex_AB ?rc [ex_A, ex_B, ex_AB]
                        = Inr (0, STABLE_KNOWN, [ex_A, ex_B, ex_AB])"
    unfolding r2 by simp
  from a b show ?thesis by blast
qed

subsection \<open>Acceptance and merge of a facet\<close>








text \<open>
  C4. For a facet that passes the test: when the bulk label is already a key, the new
  record is the old one with \<^verbatim>\<open>mu\<close> of \<^verbatim>\<open>sub_el\<close> written under the string
  \<^verbatim>\<open>sub_el\<close> and \<^verbatim>\<open>subnom\<close> appended to \<^verbatim>\<open>'name-append'\<close>; when it is not, the
  record is the solver's whole vector with \<^verbatim>\<open>'name-append'\<close> set. No step changes
  any other key of a record that was in the table, so the potentials of the bulk
  elements of those records are the same after merging one substitutional element, and
  after merging all of them.
\<close>

theorem merge_overwrites_only_sub_el:
  assumes d: "diff_bulk_sub_phases (split_dash key) (Some sub_el) = (blk, blknom, subnom)"
  shows
   "(length blk + 1 = n \<and> blknom \<in> fst ` set fin
       \<and> merge_facet lib n sub_el chem_lims key fin = Inr fin' \<longrightarrow>
       (\<exists>v mu r0 t. dict_get chem_lims key = Inr v \<and> map_of v (El sub_el) = Some mu
          \<and> map_of fin blknom = Some r0
          \<and> fin' = AList.update blknom
                     (AList.update (Str ''name-append'') (Txt t)
                        (AList.update (Str sub_el) mu r0)) fin
          \<and> t = (case map_of (AList.update (Str sub_el) mu r0) (Str ''name-append'') of
                    Some (Txt old) \<Rightarrow> old @ ''-'' @ subnom | _ \<Rightarrow> subnom)))
    \<and> (length blk + 1 = n \<and> blknom \<notin> fst ` set fin
       \<and> merge_facet lib n sub_el chem_lims key fin = Inr fin' \<longrightarrow>
       (\<exists>v t. dict_get chem_lims key = Inr v
          \<and> fin' = AList.update blknom (AList.update (Str ''name-append'') (Txt t) v) fin
          \<and> t = (case map_of v (Str ''name-append'') of
                    Some (Txt old) \<Rightarrow> old @ ''-'' @ subnom | _ \<Rightarrow> subnom)))
    \<and> (merge_facet lib n sub_el chem_lims key fin = Inr fin' \<longrightarrow>
       (\<forall>k r. map_of fin k = Some r \<longrightarrow>
          (\<exists>r'. map_of fin' k = Some r'
             \<and> (\<forall>x. x \<noteq> Str sub_el \<and> x \<noteq> Str ''name-append'' \<longrightarrow>
                   map_of r' x = map_of r x))))
    \<and> (merge_sub_el lib st entry_list sub_el fin = Inr fin_el \<longrightarrow> kept fin fin_el)
    \<and> (for_each (merge_sub_el lib st entry_list) subs fin = Inr fin_all \<longrightarrow> kept fin fin_all)"
proof -
  have a: "length blk + 1 = n \<and> blknom \<in> fst ` set fin
       \<and> merge_facet lib n sub_el chem_lims key fin = Inr fin' \<longrightarrow>
       (\<exists>v mu r0 t. dict_get chem_lims key = Inr v \<and> map_of v (El sub_el) = Some mu
          \<and> map_of fin blknom = Some r0
          \<and> fin' = AList.update blknom
                     (AList.update (Str ''name-append'') (Txt t)
                        (AList.update (Str sub_el) mu r0)) fin
          \<and> t = (case map_of (AList.update (Str sub_el) mu r0) (Str ''name-append'') of
                    Some (Txt old) \<Rightarrow> old @ ''-'' @ subnom | _ \<Rightarrow> subnom))"
  proof (intro impI, elim conjE)
    assume l: "length blk + 1 = n" and pr: "blknom \<in> fst ` set fin"
      and m: "merge_facet lib n sub_el chem_lims key fin = Inr fin'"
    from merge_facet_present [OF d l pr m] show "\<exists>v mu r0 t.
          dict_get chem_lims key = Inr v \<and> map_of v (El sub_el) = Some mu
          \<and> map_of fin blknom = Some r0
          \<and> fin' = AList.update blknom
                     (AList.update (Str ''name-append'') (Txt t)
                        (AList.update (Str sub_el) mu r0)) fin
          \<and> t = (case map_of (AList.update (Str sub_el) mu r0) (Str ''name-append'') of
                    Some (Txt old) \<Rightarrow> old @ ''-'' @ subnom | _ \<Rightarrow> subnom)"
      by metis
  qed
  have b: "length blk + 1 = n \<and> blknom \<notin> fst ` set fin
       \<and> merge_facet lib n sub_el chem_lims key fin = Inr fin' \<longrightarrow>
       (\<exists>v t. dict_get chem_lims key = Inr v
          \<and> fin' = AList.update blknom (AList.update (Str ''name-append'') (Txt t) v) fin
          \<and> t = (case map_of v (Str ''name-append'') of
                    Some (Txt old) \<Rightarrow> old @ ''-'' @ subnom | _ \<Rightarrow> subnom))"
  proof (intro impI, elim conjE)
    assume l: "length blk + 1 = n" and ab: "blknom \<notin> fst ` set fin"
      and m: "merge_facet lib n sub_el chem_lims key fin = Inr fin'"
    from merge_facet_absent [OF d l ab m] show "\<exists>v t. dict_get chem_lims key = Inr v
          \<and> fin' = AList.update blknom (AList.update (Str ''name-append'') (Txt t) v) fin
          \<and> t = (case map_of v (Str ''name-append'') of
                    Some (Txt old) \<Rightarrow> old @ ''-'' @ subnom | _ \<Rightarrow> subnom)"
      by metis
  qed
  have c: "merge_facet lib n sub_el chem_lims key fin = Inr fin' \<longrightarrow>
       (\<forall>k r. map_of fin k = Some r \<longrightarrow>
          (\<exists>r'. map_of fin' k = Some r'
             \<and> (\<forall>x. x \<noteq> Str sub_el \<and> x \<noteq> Str ''name-append'' \<longrightarrow>
                   map_of r' x = map_of r x)))"
    using merge_facet_step_frame by blast
  have e: "merge_sub_el lib st entry_list sub_el fin = Inr fin_el \<longrightarrow> kept fin fin_el"
    using merge_sub_el_kept by blast
  have f: "for_each (merge_sub_el lib st entry_list) subs fin = Inr fin_all \<longrightarrow> kept fin fin_all"
  proof
    assume r: "for_each (merge_sub_el lib st entry_list) subs fin = Inr fin_all"
    show "kept fin fin_all"
    proof (rule for_each_invariant [OF r, where I = "kept fin"])
      show "kept fin fin" by (rule kept_refl)
    next
      fix x t t'
      assume "merge_sub_el lib st entry_list x t = Inr t'" and "kept fin t"
      then show "kept fin t'" using merge_sub_el_kept kept_trans by blast
    qed
  qed
  from a b c e f show ?thesis by blast
qed


lemma ex_merge_present:
  "merge_facet (ex_lib 0 [] ex_fin ex_sub_table) 2 ''S'' ex_sub_table ''AB-S-SB'' ex_fin1
     = Inr ex_fin2"
  by code_simp

lemma ex_merge_sub_el:
  "merge_sub_el (ex_lib 0 [] ex_fin ex_sub_table) ex_dilute [ex_A, ex_B] ''S'' ex_fin
     = Inr ex_fin2"
  by code_simp

theorem merge_overwrites_only_sub_el_witness:
  "diff_bulk_sub_phases (split_dash ''AB-S-SB'') (Some ''S'') = ([''AB''], ''AB'', ''S-SB'')
   \<and> ''AB'' \<in> fst ` set ex_fin1
   \<and> merge_facet (ex_lib 0 [] ex_fin ex_sub_table) 2 ''S'' ex_sub_table ''AB-S-SB'' ex_fin1
       = Inr ex_fin2
   \<and> map_of ex_fin1 ''AB''
       = Some (ex_mu3 (- 1) (- 1) 0 @ [(Str ''name-append'', Txt ''AS-S'')])
   \<and> map_of ex_fin2 ''AB''
       = Some (ex_mu3 (- 1) (- 1) 0
               @ [(Str ''name-append'', Txt ''AS-S-S-SB''), (Str ''S'', Num (- 3))])
   \<and> merge_sub_el (ex_lib 0 [] ex_fin ex_sub_table) ex_dilute [ex_A, ex_B] ''S'' ex_fin
       = Inr ex_fin2
   \<and> kept ex_fin ex_fin2 \<and> kept ex_fin1 ex_fin2"
proof -
  let ?L = "ex_lib 0 [] ex_fin ex_sub_table"
  have d: "diff_bulk_sub_phases (split_dash ''AB-S-SB'') (Some ''S'')
             = ([''AB''], ''AB'', ''S-SB'')"
    by (simp add: diff_bulk_sub_phases_def diff_sorted_def)
  note r = merge_overwrites_only_sub_el [OF d, where n = 2 and lib = ?L
      and chem_lims = ex_sub_table and fin = ex_fin1 and fin' = ex_fin2 and st = ex_dilute
      and entry_list = "[ex_A, ex_B]" and fin_el = ex_fin2 and subs = "[]" and fin_all = ex_fin1]
  note r' = merge_overwrites_only_sub_el [OF d, where n = 2 and lib = ?L
      and chem_lims = ex_sub_table and fin = ex_fin and fin' = ex_fin2 and st = ex_dilute
      and entry_list = "[ex_A, ex_B]" and fin_el = ex_fin2 and subs = "[]" and fin_all = ex_fin]
  have k: "''AB'' \<in> fst ` set ex_fin1"
    by (simp add: ex_fin1_def ex_fin_def)
  have m1: "map_of ex_fin1 ''AB''
              = Some (ex_mu3 (- 1) (- 1) 0 @ [(Str ''name-append'', Txt ''AS-S'')])"
    by (simp add: ex_fin1_def ex_fin_def)
  have m2: "map_of ex_fin2 ''AB''
              = Some (ex_mu3 (- 1) (- 1) 0
                      @ [(Str ''name-append'', Txt ''AS-S-S-SB''), (Str ''S'', Num (- 3))])"
    by (simp add: ex_fin2_def ex_fin_def)
  have k1: "kept ex_fin ex_fin2"
    using r' ex_merge_sub_el by blast
  have k2: "kept ex_fin1 ex_fin2"
  proof -
    from r ex_merge_present
    have "\<forall>k r. map_of ex_fin1 k = Some r \<longrightarrow>
            (\<exists>r'. map_of ex_fin2 k = Some r'
               \<and> (\<forall>x. x \<noteq> Str ''S'' \<and> x \<noteq> Str ''name-append'' \<longrightarrow>
                     map_of r' x = map_of r x))"
      by blast
    then show ?thesis unfolding kept_def by (metis vkey.distinct(1))
  qed
  from d k ex_merge_present m1 m2 ex_merge_sub_el k1 k2 show ?thesis by blast
qed

subsection \<open>The check after the merge, and the merge of no element\<close>

lemma bulk_facet_canonical:
  assumes "map_of cl key = Some v"
    and "fst (snd (diff_bulk_sub_phases (split_dash key) None)) = key"
  shows "bulk_facet cl key fin = Inr (AList.update key v fin)"
proof -
  obtain blk blknom subnom
    where d: "diff_bulk_sub_phases (split_dash key) None = (blk, blknom, subnom)"
    by (metis prod_cases3)
  with assms(2) have "blknom = key" by simp
  with d assms(1) show ?thesis by (simp add: bulk_facet_def dict_get_def)
qed

lemma bulk_facet_runs:
  assumes "key \<in> fst ` set cl"
  shows "\<exists>fin'. bulk_facet cl key fin = Inr fin'"
proof -
  obtain blk blknom subnom
    where d: "diff_bulk_sub_phases (split_dash key) None = (blk, blknom, subnom)"
    by (metis prod_cases3)
  from assms obtain v where "map_of cl key = Some v"
    by (metis map_of_None_iff not_Some_eq)
  with d show ?thesis by (simp add: bulk_facet_def dict_get_def)
qed

lemma bulk_loop_runs:
  assumes "set ks \<subseteq> fst ` set cl"
  shows "\<exists>fin'. for_each (bulk_facet cl) ks fin = Inr fin'"
  using assms
proof (induction ks arbitrary: fin)
  case Nil
  then show ?case by simp
next
  case (Cons key ks)
  then obtain fin1 where "bulk_facet cl key fin = Inr fin1"
    using bulk_facet_runs [of key cl fin] by auto
  with Cons show ?case by simp
qed

lemma bulk_facets_runs: "\<exists>fin. bulk_facets cl = Inr fin"
  unfolding bulk_facets_def by (rule bulk_loop_runs) simp

lemma bulk_loop_canonical:
  assumes "\<forall>key\<in>set ks. key \<in> fst ` set cl
             \<and> fst (snd (diff_bulk_sub_phases (split_dash key) None)) = key"
    and "for_each (bulk_facet cl) ks fin = Inr fin'"
  shows "map_of fin' k = (if k \<in> set ks then map_of cl k else map_of fin k)"
  using assms
proof (induction ks arbitrary: fin)
  case Nil
  then show ?case by simp
next
  case (Cons key ks)
  from Cons.prems(1) have kc: "key \<in> fst ` set cl"
    and can: "fst (snd (diff_bulk_sub_phases (split_dash key) None)) = key"
    by simp_all
  from kc obtain v where v: "map_of cl key = Some v"
    by (metis map_of_None_iff not_Some_eq)
  from bulk_facet_canonical [OF v can]
  have b: "bulk_facet cl key fin = Inr (AList.update key v fin)" .
  with Cons.prems(2) have r: "for_each (bulk_facet cl) ks (AList.update key v fin) = Inr fin'"
    by simp
  from Cons.prems(1) have "\<forall>key\<in>set ks. key \<in> fst ` set cl
             \<and> fst (snd (diff_bulk_sub_phases (split_dash key) None)) = key"
    by simp
  from Cons.IH [OF this r]
  have "map_of fin' k = (if k \<in> set ks then map_of cl k
                         else map_of (AList.update key v fin) k)" .
  with v show ?case by (simp add: update_conv')
qed

lemma bulk_facets_canonical:
  assumes "\<forall>key\<in>fst ` set cl. fst (snd (diff_bulk_sub_phases (split_dash key) None)) = key"
    and "bulk_facets cl = Inr fin"
  shows "map_of fin = map_of cl" and "fst ` set fin = fst ` set cl"
proof -
  have "map_of fin k = map_of cl k" for k
  proof -
    have "map_of fin k = (if k \<in> set (map fst cl) then map_of cl k else map_of [] k)"
      using assms by (intro bulk_loop_canonical) (auto simp: bulk_facets_def)
    moreover have "map_of cl k = None" if "k \<notin> fst ` set cl"
      using that by (simp add: map_of_None_iff)
    ultimately show ?thesis by auto
  qed
  then show m: "map_of fin = map_of cl" by (rule ext)
  then have "dom (map_of fin) = dom (map_of cl)" by simp
  then show "fst ` set fin = fst ` set cl" by (simp add: dom_map_of_conv_image_fst)
qed

lemma get_mp_entries_dilute_Inr:
  assumes "get_mp_entries mp st False = Inr st1"
  shows "sub_species st1 = sub_species st"
    and "\<exists>b. bulk_ce st1 = Some b"
    and "sub_species st = [] \<longrightarrow> subs_set st1 = []"
proof -
  from assms obtain st' ov where rb: "resolve_bulk mp st = Inr (st', ov)"
    and dl: "get_mp_entries_dilute mp st' ov = Inr st1"
    by (auto simp: get_mp_entries_def ebind_eq_Inr)
  from rb have s': "sub_species st' = sub_species st" and b': "\<exists>b. bulk_ce st' = Some b"
    by (auto simp: resolve_bulk_def ebind_eq_Inr split: option.splits if_splits)
  from dl have a: "sub_species st1 = sub_species st'"
    by (auto simp: get_mp_entries_dilute_def ebind_eq_Inr split: if_splits)
  from dl b' have b: "\<exists>b. bulk_ce st1 = Some b"
    by (auto simp: get_mp_entries_dilute_def ebind_eq_Inr split: if_splits)
  from dl have c: "sub_species st' = [] \<longrightarrow> subs_set st1 = []"
    by (auto simp: get_mp_entries_dilute_def ebind_eq_Inr split: if_splits)
  from a s' show "sub_species st1 = sub_species st" by simp
  from b show "\<exists>b. bulk_ce st1 = Some b" .
  from c s' show "sub_species st = [] \<longrightarrow> subs_set st1 = []" by simp
qed


lemma analyze_dilute_unfold:
  assumes "get_mp_entries mp st0 False = Inr st1" and "bulk_ce st1 = Some b"
    and "classify_stability lib b (redcomp st1) (bulk_derived st1)
           = Inr (decomp_en, status, entry_list)"
    and "solve lib (Some b) entry_list = Inr chem_lims"
  shows "analyze_GGA_chempots lib mp st0 False
           = dilute_chempots lib (st1\<lparr>bulk_derived := entry_list\<rparr>) chem_lims"
  using assms by (simp add: analyze_GGA_chempots_def)











text \<open>
  C7, as the code has it. With no substitutional species, in the dilute path, the result
  is the table of the first loop, in which every key of the bulk-only table is replaced
  by the label of its sorted phases, or, when the flag of the check is set, the bulk-only
  table itself, solved again. So when every key of the bulk-only table already is the
  label of its sorted phases, the result has the keys and the vectors of the bulk-only
  table.
\<close>

theorem no_substitutional_species_identity:
  assumes e: "sub_species st0 = []"
    and g: "get_mp_entries mp st0 False = Inr st1" and b: "bulk_ce st1 = Some b"
    and c: "classify_stability lib b (redcomp st1) (bulk_derived st1)
           = Inr (decomp_en, status, entry_list)"
    and s: "solve lib (Some b) entry_list = Inr chem_lims"
  shows "\<exists>st' t fin. bulk_facets chem_lims = Inr fin
           \<and> analyze_GGA_chempots lib mp st0 False = Inr (st', t)
           \<and> t = (if length (map fst fin) \<noteq> length (bulk_species_symbol st1)
                  then chem_lims else fin)
           \<and> ((\<forall>key\<in>fst ` set chem_lims.
                  fst (snd (diff_bulk_sub_phases (split_dash key) None)) = key)
                \<longrightarrow> map_of t = map_of chem_lims \<and> fst ` set t = fst ` set chem_lims)"
proof -
  obtain fin where f: "bulk_facets chem_lims = Inr fin"
    using bulk_facets_runs by blast
  let ?st = "st1\<lparr>bulk_derived := entry_list\<rparr>"
  from get_mp_entries_dilute_Inr [OF g] e
  have ss: "sub_species st1 = []" and su: "subs_set st1 = []" by simp_all
  from f ss have m: "merged_table lib ?st entry_list chem_lims = Inr fin"
    by (simp add: merged_table_def)
  have a: "analyze_GGA_chempots lib mp st0 False
             = dilute_chempots lib ?st chem_lims"
    by (rule analyze_dilute_unfold [OF g b c s])
  have d: "dilute_chempots lib ?st chem_lims
             = Inr (if length (map fst fin) \<noteq> length (bulk_species_symbol st1)
                    then (?st\<lparr>bulk_derived := entry_list\<rparr>, chem_lims) else (?st, fin))"
    using m su s b
    by (simp add: dilute_chempots_def overdependent_chempot_def full_entry_list_def)
  have k: "(\<forall>key\<in>fst ` set chem_lims.
              fst (snd (diff_bulk_sub_phases (split_dash key) None)) = key)
           \<longrightarrow> map_of fin = map_of chem_lims \<and> fst ` set fin = fst ` set chem_lims"
    using bulk_facets_canonical [OF _ f] by blast
  show ?thesis
  proof (cases "length (map fst fin) \<noteq> length (bulk_species_symbol st1)")
    case True
    with a d f show ?thesis by auto
  next
    case False
    with a d f k show ?thesis by auto
  qed
qed

lemma ex0_get: "get_mp_entries ex_mp (ex_analyzer []) False = Inr ex_bulk_only"
  by code_simp

lemma ex0_classify: "classify_stability ex_new ex_AB (redcomp ex_bulk_only) (bulk_derived ex_bulk_only)
   = Inr (- 1 / 100, STABLE_NEW, [ex_A, ex_B, ex_AB])"
  by code_simp

lemma ex0_solve: "solve ex_new (Some ex_AB) [ex_A, ex_B, ex_AB] = Inr ex_fin"
  by code_simp

lemma ex0_solve_raw: "solve ex_new_raw (Some ex_AB) [ex_A, ex_B, ex_AB] = Inr ex_raw"
  by code_simp

lemma ex0_analyze_raw: "analyze_GGA_chempots ex_new_raw ex_mp (ex_analyzer []) False
  = Inr (ex_bulk_only\<lparr>bulk_derived := [ex_A, ex_B, ex_AB]\<rparr>, ex_fin)"
  by code_simp

text \<open>
  C7, as stated, fails: the solver gives the key \<^verbatim>\<open>AB-A\<close>, and the result has the key
  \<^verbatim>\<open>A-AB\<close> in its place.
\<close>

theorem relabelled_keys_counterexample:
  "sub_species (ex_analyzer []) = []
   \<and> solve ex_new_raw (Some ex_AB) [ex_A, ex_B, ex_AB] = Inr ex_raw
   \<and> analyze_GGA_chempots ex_new_raw ex_mp (ex_analyzer []) False
       = Inr (ex_bulk_only\<lparr>bulk_derived := [ex_A, ex_B, ex_AB]\<rparr>, ex_fin)
   \<and> map_of ex_raw ''AB-A'' = Some (ex_mu 0 (- 2))
   \<and> map_of ex_fin ''AB-A'' = None
   \<and> map_of ex_fin ''A-AB'' = Some (ex_mu 0 (- 2))"
proof -
  have a: "sub_species (ex_analyzer []) = []" by (simp add: ex_analyzer_def)
  have b: "map_of ex_raw ''AB-A'' = Some (ex_mu 0 (- 2))" by (simp add: ex_raw_def)
  have c: "map_of ex_fin ''AB-A'' = None" by (simp add: ex_fin_def)
  have d: "map_of ex_fin ''A-AB'' = Some (ex_mu 0 (- 2))" by (simp add: ex_fin_def)
  from a ex0_solve_raw ex0_analyze_raw b c d show ?thesis by blast
qed

theorem no_substitutional_species_identity_witness:
  "sub_species (ex_analyzer []) = []
   \<and> get_mp_entries ex_mp (ex_analyzer []) False = Inr ex_bulk_only
   \<and> bulk_ce ex_bulk_only = Some ex_AB
   \<and> classify_stability ex_new ex_AB (redcomp ex_bulk_only) (bulk_derived ex_bulk_only)
       = Inr (- 1 / 100, STABLE_NEW, [ex_A, ex_B, ex_AB])
   \<and> solve ex_new (Some ex_AB) [ex_A, ex_B, ex_AB] = Inr ex_fin
   \<and> fst (snd (diff_bulk_sub_phases (split_dash ''A-AB'') None)) = ''A-AB''
   \<and> fst (snd (diff_bulk_sub_phases (split_dash ''AB-B'') None)) = ''AB-B''
   \<and> (\<exists>st' t. analyze_GGA_chempots ex_new ex_mp (ex_analyzer []) False = Inr (st', t)
         \<and> map_of t = map_of ex_fin \<and> fst ` set t = fst ` set ex_fin)"
proof -
  have a: "sub_species (ex_analyzer []) = []" by (simp add: ex_analyzer_def)
  have b: "bulk_ce ex_bulk_only = Some ex_AB" by (simp add: ex_bulk_only_def ex_analyzer_def)
  have k1: "fst (snd (diff_bulk_sub_phases (split_dash ''A-AB'') None)) = ''A-AB''"
    by (simp add: diff_bulk_sub_phases_def diff_sorted_def)
  have k2: "fst (snd (diff_bulk_sub_phases (split_dash ''AB-B'') None)) = ''AB-B''"
    by (simp add: diff_bulk_sub_phases_def diff_sorted_def)
  have k: "\<forall>key\<in>fst ` set ex_fin.
             fst (snd (diff_bulk_sub_phases (split_dash key) None)) = key"
    using k1 k2 by (simp add: ex_fin_def)
  from no_substitutional_species_identity [OF a ex0_get b ex0_classify ex0_solve] k
  have "\<exists>st' t. analyze_GGA_chempots ex_new ex_mp (ex_analyzer []) False = Inr (st', t)
         \<and> map_of t = map_of ex_fin \<and> fst ` set t = fst ` set ex_fin"
    by blast
  with a ex0_get b ex0_classify ex0_solve k1 k2 show ?thesis by blast
qed

subsection \<open>The local pipeline\<close>

lemma separate_eq:
  "separate bulk_elements xs entry_list sub
     = (if list_all (bulk_associated bulk_elements) xs then Inr (entry_list @ xs, sub)
        else Inl TypeError)"
  by (induction xs arbitrary: entry_list) simp_all

lemma not_bulk_associated_iff:
  "(\<exists>localentry\<in>set xs. \<exists>elt\<in>set (elements (composition localentry)). elt \<notin> set bulk_elements)
     \<longleftrightarrow> \<not> list_all (bulk_associated bulk_elements) xs"
  by (auto simp: bulk_associated_def list_all_iff)

lemma add_fake_entries_keeps:
  assumes "add_fake_entries b loaded = Inr loaded'"
  shows "set loaded \<subseteq> set loaded'"
  using assms by (auto simp: add_fake_entries_def ebind_eq_Inr)

text \<open>
  C8. The separation step returns only when every entry is bulk-associated, and then
  with an empty list of substitution-associated entries; as soon as an entry has an
  element outside the bulk composition, the call of the list raises \<^verbatim>\<open>TypeError\<close>.
  So the local pipeline with \<^verbatim>\<open>full_sub_approach = False\<close>, given such an entry among
  those loaded, ends in that \<^verbatim>\<open>TypeError\<close>, unless the step before it has already
  raised.
\<close>

theorem separation_raises_type_error:
  "separate bulk_elements personal_entry_list [] []
     = (if \<exists>localentry\<in>set personal_entry_list.
             \<exists>elt\<in>set (elements (composition localentry)). elt \<notin> set bulk_elements
        then Inl TypeError else Inr (personal_entry_list, []))
   \<and> (phase_diagram_folder files = Some loaded
        \<and> (case user_bulk_ce st of Some b \<Rightarrow> Some b | None \<Rightarrow> bulk_vasprun files) = Some b
        \<and> (\<exists>localentry\<in>set loaded.
              \<exists>elt\<in>set (elements (composition localentry)).
                 elt \<notin> set (elements (composition b)))
      \<longrightarrow> read_phase_diagram_and_chempots lib files st False
            = (case add_fake_entries b loaded of
                 Inl e \<Rightarrow> Inl e
               | Inr personal_entry_list' \<Rightarrow> Inl TypeError))"
proof -
  have a: "separate bulk_elements personal_entry_list [] []
     = (if \<exists>localentry\<in>set personal_entry_list.
             \<exists>elt\<in>set (elements (composition localentry)). elt \<notin> set bulk_elements
        then Inl TypeError else Inr (personal_entry_list, []))"
    unfolding not_bulk_associated_iff by (simp add: separate_eq)
  have b: "read_phase_diagram_and_chempots lib files st False
            = (case add_fake_entries b loaded of
                 Inl e \<Rightarrow> Inl e
               | Inr personal_entry_list' \<Rightarrow> Inl TypeError)"
    if f: "phase_diagram_folder files = Some loaded"
      and u: "(case user_bulk_ce st of Some b \<Rightarrow> Some b | None \<Rightarrow> bulk_vasprun files) = Some b"
      and x: "\<exists>localentry\<in>set loaded.
              \<exists>elt\<in>set (elements (composition localentry)).
                 elt \<notin> set (elements (composition b))"
  proof (cases "add_fake_entries b loaded")
    case (Inl e)
    with f u show ?thesis by (simp add: read_phase_diagram_and_chempots_def)
  next
    case (Inr loaded')
    from add_fake_entries_keeps [OF Inr] x
    have "\<exists>localentry\<in>set (loaded' @ [b]).
              \<exists>elt\<in>set (elements (composition localentry)).
                 elt \<notin> set (elements (composition b))"
      by auto
    then have "\<not> list_all (bulk_associated (elements (composition b))) (loaded' @ [b])"
      unfolding not_bulk_associated_iff .
    then have "separate (elements (composition b)) (loaded' @ [b]) [] [] = Inl TypeError"
      by (simp only: separate_eq if_False)
    then have "user_dilute_chempots lib st b (loaded' @ [b]) = Inl TypeError"
      by (simp only: user_dilute_chempots_def ebind_Inl)
    with f u Inr show ?thesis by (simp add: read_phase_diagram_and_chempots_def)
  qed
  from a b show ?thesis by blast
qed

lemma ex_fakes: "add_fake_entries ex_AB [ex_A, ex_AS] = Inr [ex_A, ex_AS, ex_AB, ex_fake_B]"
  by code_simp

theorem separation_raises_type_error_witness:
  "phase_diagram_folder (ex_files [ex_A, ex_AS]) = Some [ex_A, ex_AS]
   \<and> user_bulk_ce ex_user = Some ex_AB
   \<and> ''S'' \<in> set (elements (composition ex_AS))
   \<and> ''S'' \<notin> set (elements (composition ex_AB))
   \<and> add_fake_entries ex_AB [ex_A, ex_AS] = Inr [ex_A, ex_AS, ex_AB, ex_fake_B]
   \<and> separate (elements (composition ex_AB)) [ex_A, ex_AS, ex_AB, ex_fake_B, ex_AB] [] []
       = Inl TypeError
   \<and> read_phase_diagram_and_chempots ex_new (ex_files [ex_A, ex_AS]) ex_user False
       = Inl TypeError"
proof -
  have f: "phase_diagram_folder (ex_files [ex_A, ex_AS]) = Some [ex_A, ex_AS]"
    by (simp add: ex_files_def)
  have u: "user_bulk_ce ex_user = Some ex_AB"
    by (simp add: ex_user_def)
  have u': "(case user_bulk_ce ex_user of Some b \<Rightarrow> Some b
             | None \<Rightarrow> bulk_vasprun (ex_files [ex_A, ex_AS])) = Some ex_AB"
    by (simp add: ex_user_def)
  have s1: "''S'' \<in> set (elements (composition ex_AS))"
    by (simp add: elements_def ex_AS_def)
  have s2: "''S'' \<notin> set (elements (composition ex_AB))"
    by (simp add: elements_def ex_AB_def)
  have x: "\<exists>localentry\<in>set [ex_A, ex_AS].
              \<exists>elt\<in>set (elements (composition localentry)).
                 elt \<notin> set (elements (composition ex_AB))"
    using s1 s2 by auto
  have x': "\<exists>localentry\<in>set [ex_A, ex_AS, ex_AB, ex_fake_B, ex_AB].
              \<exists>elt\<in>set (elements (composition localentry)).
                 elt \<notin> set (elements (composition ex_AB))"
    using s1 s2 by auto
  note r = separation_raises_type_error [where lib = ex_new and files = "ex_files [ex_A, ex_AS]"
      and st = ex_user and loaded = "[ex_A, ex_AS]" and b = ex_AB
      and bulk_elements = "elements (composition ex_AB)"
      and personal_entry_list = "[ex_A, ex_AS, ex_AB, ex_fake_B, ex_AB]"]
  from r x' have sp: "separate (elements (composition ex_AB))
                        [ex_A, ex_AS, ex_AB, ex_fake_B, ex_AB] [] [] = Inl TypeError"
    by (simp only: if_True)
  from r f u' x have "read_phase_diagram_and_chempots ex_new (ex_files [ex_A, ex_AS]) ex_user False
            = (case add_fake_entries ex_AB [ex_A, ex_AS] of
                 Inl e \<Rightarrow> Inl e
               | Inr personal_entry_list' \<Rightarrow> Inl TypeError)"
    by blast
  with ex_fakes have rd: "read_phase_diagram_and_chempots ex_new (ex_files [ex_A, ex_AS])
                            ex_user False = Inl TypeError"
    by simp
  from f u s1 s2 ex_fakes sp rd show ?thesis by blast
qed

text \<open>
  C10. With \<^verbatim>\<open>include_mp_entries = False\<close> a loaded entry of one pure element that is
  not a bulk element makes the counting loop raise \<^verbatim>\<open>KeyError\<close>: no entry is added
  and nothing is solved, also with \<^verbatim>\<open>full_sub_approach = True\<close>, where the entries of
  substitutional elements are meant to take part. Without such an entry the missing
  element \<open>B\<close> gets its entry of energy zero and the solve goes through.
\<close>

theorem fake_entries_key_error:
  "is_element ex_S
   \<and> ''S'' \<notin> set (elements (composition ex_AB))
   \<and> add_fake_entries ex_AB [ex_A, ex_S] = Inl KeyError
   \<and> read_phase_diagram_and_chempots ex_new (ex_files [ex_A, ex_S]) ex_user True
       = Inl KeyError
   \<and> add_fake_entries ex_AB [ex_A] = Inr [ex_A, ex_AB, ex_fake_B]
   \<and> read_phase_diagram_and_chempots ex_new (ex_files [ex_A]) ex_user True
       = Inr (Some ex_fin)"
proof -
  have a: "is_element ex_S" by (simp add: is_element_def elements_def ex_S_def)
  have b: "''S'' \<notin> set (elements (composition ex_AB))" by (simp add: elements_def ex_AB_def)
  have c: "add_fake_entries ex_AB [ex_A, ex_S] = Inl KeyError" by code_simp
  have d: "read_phase_diagram_and_chempots ex_new (ex_files [ex_A, ex_S]) ex_user True
             = Inl KeyError" by code_simp
  have e: "add_fake_entries ex_AB [ex_A] = Inr [ex_A, ex_AB, ex_fake_B]" by code_simp
  have f: "read_phase_diagram_and_chempots ex_new (ex_files [ex_A]) ex_user True
             = Inr (Some ex_fin)" by code_simp
  from a b c d e f show ?thesis by blast
qed


text \<open>
  The two cases of \<^verbatim>\<open>add_fake_entries\<close> in general: when every loaded entry of one
  pure element is of a bulk element, an entry of energy zero is added for exactly the
  bulk elements without one (\<open>add_fake_entries_ok\<close>); otherwise the step raises
  (\<open>add_fake_entries_key_error\<close>).
\<close>

lemma update_distinct_map:
  assumes "distinct (map fst al)" and "k \<in> fst ` set al"
  shows "AList.update k v al = map (\<lambda>(e, m). (e, if e = k then v else m)) al"
  using assms
proof (induction al)
  case Nil
  then show ?case by simp
next
  case (Cons x al)
  obtain e m where x: "x = (e, m)" by (cases x)
  show ?case
  proof (cases "e = k")
    case True
    with Cons.prems(1) x have "k \<notin> fst ` set al" by auto
    then have "map (\<lambda>(e, m). (e, if e = k then v else m)) al = al"
      by (induction al) auto
    with True x show ?thesis by simp
  next
    case False
    with Cons x show ?thesis by auto
  qed
qed

lemma count_loop:
  assumes "distinct (map fst ec)"
    and "\<forall>p\<in>set ps. is_element p \<longrightarrow> hd (elements (composition p)) \<in> fst ` set ec"
  shows "for_each count_element ps ec
           = Inr (map (\<lambda>(elt, n). (elt, n + pure_count ps elt)) ec)"
  using assms
proof (induction ps arbitrary: ec)
  case Nil
  then show ?case by (simp add: pure_count_def)
next
  case (Cons p ps)
  show ?case
  proof (cases "is_element p")
    case False
    then have c: "count_element p ec = Inr ec" by (simp add: count_element_def)
    from False have "pure_count (p # ps) elt = pure_count ps elt" for elt
      by (simp add: pure_count_def)
    with c Cons show ?thesis by simp
  next
    case True
    let ?k = "hd (elements (composition p))"
    from True Cons.prems(2) have k: "?k \<in> fst ` set ec" by simp
    then obtain n where n: "map_of ec ?k = Some n"
      by (metis map_of_None_iff not_Some_eq)
    let ?ec = "map (\<lambda>(e, m). (e, if e = ?k then Suc n else m)) ec"
    have "AList.update ?k (Suc n) ec = ?ec"
      by (rule update_distinct_map [OF Cons.prems(1) k])
    with True n have c: "count_element p ec = Inr ?ec"
      by (simp add: count_element_def dict_get_def)
    have fs: "map fst ?ec = map fst ec" by (induction ec) auto
    have d: "distinct (map fst ?ec)" using Cons.prems(1) by (simp only: fs)
    have m: "\<forall>p\<in>set ps. is_element p \<longrightarrow> hd (elements (composition p)) \<in> fst ` set ?ec"
      using Cons.prems(2) fs by (metis list.set_intros(2) list.set_map)
    have pc: "pure_count (p # ps) elt = (if elt = ?k then 1 else 0) + pure_count ps elt" for elt
      using True by (auto simp: pure_count_def)
    have nk: "m = n" if "(?k, m) \<in> set ec" for m
      using that n Cons.prems(1) by simp
    have "map (\<lambda>(elt, n). (elt, n + pure_count ps elt)) ?ec
            = map (\<lambda>(elt, n). (elt, n + pure_count (p # ps) elt)) ec"
      using nk by (auto simp: pc)
    with c Cons.IH [OF d m] show ?thesis by simp
  qed
qed

lemma add_fake_entries_ok:
  assumes "\<forall>p\<in>set (loaded @ [b]). is_element p \<longrightarrow>
             hd (elements (composition p)) \<in> set (elements (composition b))"
  shows "add_fake_entries b loaded
           = Inr ((loaded @ [b])
                  @ map fake_entry
                      (filter (\<lambda>elt. pure_count (loaded @ [b]) elt = 0)
                         (remdups (elements (composition b)))))"
proof -
  let ?ec = "map (\<lambda>elt. (elt, 0::nat)) (remdups (elements (composition b)))"
  have fs: "map fst ?ec = remdups (elements (composition b))"
    by (simp add: comp_def)
  have d: "distinct (map fst ?ec)" by (simp only: fs distinct_remdups)
  have m: "\<forall>p\<in>set (loaded @ [b]). is_element p \<longrightarrow>
             hd (elements (composition p)) \<in> fst ` set ?ec"
    using assms by (simp add: image_comp)
  have h: "map fst (filter (\<lambda>(elt, eltnum). eltnum = 0)
                   (map (\<lambda>(elt, n). (elt, n + c elt)) (map (\<lambda>elt. (elt, 0::nat)) xs)))
          = filter (\<lambda>elt. c elt = 0) xs" for c :: "string \<Rightarrow> nat" and xs
    by (induction xs) auto
  have cl: "for_each count_element (loaded @ [b]) ?ec
              = Inr (map (\<lambda>(elt, n). (elt, n + pure_count (loaded @ [b]) elt)) ?ec)"
    by (rule count_loop [OF d m])
  show ?thesis
    by (simp only: add_fake_entries_def cl ebind_Inr h)
qed


lemma count_element_keys:
  assumes "count_element p ec = Inr ec'"
  shows "fst ` set ec' = fst ` set ec"
proof (cases "is_element p")
  case False
  with assms show ?thesis by (simp add: count_element_def)
next
  case True
  with assms obtain n where n: "map_of ec (hd (elements (composition p))) = Some n"
    and e: "ec' = AList.update (hd (elements (composition p))) (n + 1) ec"
    by (auto simp: count_element_def ebind_eq_Inr dict_get_eq_Inr)
  from n have "hd (elements (composition p)) \<in> fst ` set ec"
    by (metis map_of_None_iff option.distinct(1))
  with e show ?thesis by (auto simp: dom_update)
qed

lemma count_loop_key_error:
  assumes "\<exists>p\<in>set ps. is_element p \<and> hd (elements (composition p)) \<notin> fst ` set ec"
  shows "for_each count_element ps ec = Inl KeyError"
  using assms
proof (induction ps arbitrary: ec)
  case Nil
  then show ?case by simp
next
  case (Cons p ps)
  show ?case
  proof (cases "is_element p \<and> hd (elements (composition p)) \<notin> fst ` set ec")
    case True
    then have "map_of ec (hd (elements (composition p))) = None"
      by (simp add: map_of_None_iff)
    with True show ?thesis by (simp add: count_element_def dict_get_def)
  next
    case False
    with Cons.prems have r: "\<exists>p\<in>set ps. is_element p
                               \<and> hd (elements (composition p)) \<notin> fst ` set ec"
      by auto
    show ?thesis
    proof (cases "count_element p ec")
      case (Inl e)
      then have "e = KeyError"
        by (auto simp: count_element_def dict_get_def ebind_def
            split: if_splits option.splits)
      with Inl show ?thesis by simp
    next
      case (Inr ec')
      from count_element_keys [OF Inr] r
      have "\<exists>p\<in>set ps. is_element p \<and> hd (elements (composition p)) \<notin> fst ` set ec'"
        by simp
      from Cons.IH [OF this] Inr show ?thesis by simp
    qed
  qed
qed

lemma add_fake_entries_key_error:
  assumes "\<exists>p\<in>set (loaded @ [b]). is_element p
             \<and> hd (elements (composition p)) \<notin> set (elements (composition b))"
  shows "add_fake_entries b loaded = Inl KeyError"
proof -
  let ?ec = "map (\<lambda>elt. (elt, 0::nat)) (remdups (elements (composition b)))"
  have "fst ` set ?ec = set (elements (composition b))"
    by (simp add: image_comp)
  with assms have "\<exists>p\<in>set (loaded @ [b]). is_element p
                     \<and> hd (elements (composition p)) \<notin> fst ` set ?ec"
    by simp
  from count_loop_key_error [OF this] show ?thesis
    by (simp only: add_fake_entries_def ebind_Inl)
qed

subsection \<open>The equations of the phases in the returned tables\<close>

lemma split_dash_nonempty: "split_dash s \<noteq> []"
  by (induction s) (auto split: list.splits)

lemma split_dash_dash_free: "w \<in> set (split_dash s) \<Longrightarrow> CHR ''-'' \<notin> set w"
proof (induction s arbitrary: w)
  case Nil
  then show ?case by simp
next
  case (Cons c cs)
  show ?case
  proof (cases "c = CHR ''-''")
    case True
    with Cons show ?thesis by auto
  next
    case False
    obtain v vs where s: "split_dash cs = v # vs"
      using split_dash_nonempty [of cs] by (cases "split_dash cs") auto
    with False Cons.prems have "w = c # v \<or> w \<in> set vs" by simp
    then show ?thesis
    proof
      assume "w = c # v"
      moreover have "CHR ''-'' \<notin> set v" using Cons.IH [of v] s by simp
      ultimately show ?thesis using False by auto
    next
      assume "w \<in> set vs"
      then show ?thesis using Cons.IH [of w] s by simp
    qed
  qed
qed

lemma split_dash_word: "CHR ''-'' \<notin> set w \<Longrightarrow> split_dash w = [w]"
  by (induction w) auto

lemma split_dash_append:
  "CHR ''-'' \<notin> set w \<Longrightarrow> split_dash (w @ CHR ''-'' # rest) = w # split_dash rest"
  by (induction w) auto

lemma split_join:
  assumes "ws \<noteq> []" and "\<forall>w\<in>set ws. CHR ''-'' \<notin> set w"
  shows "split_dash (join_dash ws) = ws"
  using assms
proof (induction ws rule: join_dash.induct)
  case 1
  then show ?case by simp
next
  case (2 x)
  then show ?case by (simp add: split_dash_word)
next
  case (3 x y ys)
  then have "split_dash (join_dash (y # ys)) = y # ys" by simp
  with 3 show ?case by (simp add: split_dash_append)
qed

lemma join_dash_Nil: "join_dash ws = [] \<Longrightarrow> ws = [] \<or> ws = [[]]"
  by (induction ws rule: join_dash.induct) auto

lemma label_phases_sub:
  assumes "set ws \<subseteq> set (split_dash key)" and "length ws \<le> length (split_dash key)"
  shows "set (label_phases (join_dash ws)) \<subseteq> set (label_phases key)"
proof (cases "join_dash ws = []")
  case True
  then show ?thesis by (simp add: label_phases_def)
next
  case False
  then have ne: "ws \<noteq> []" by auto
  from assms have df: "\<forall>w\<in>set ws. CHR ''-'' \<notin> set w"
    using split_dash_dash_free by blast
  have sj: "split_dash (join_dash ws) = ws" by (rule split_join [OF ne df])
  show ?thesis
  proof (cases "key = []")
    case True
    with assms ne have "ws = [[]]" by (cases ws) auto
    with False show ?thesis by simp
  next
    case k: False
    with False sj assms show ?thesis by (simp add: label_phases_def)
  qed
qed

lemma label_phases_blknom:
  assumes "diff_bulk_sub_phases (split_dash key) sub_el = (blk, blknom, subnom)"
  shows "set (label_phases blknom) \<subseteq> set (label_phases key)"
proof -
  from assms have b: "blk = sort (filter (\<lambda>f. \<not> is_sub_face sub_el f) (split_dash key))"
    and n: "blknom = join_dash blk"
    by (auto simp: diff_bulk_sub_phases_def diff_sorted_filter)
  have "set blk \<subseteq> set (split_dash key)" unfolding b by auto
  moreover have "length blk \<le> length (split_dash key)" unfolding b by simp
  ultimately show ?thesis unfolding n by (rule label_phases_sub)
qed

lemma phase_ok_cong:
  assumes "\<And>e. map_of vec' (El e) = map_of vec (El e)"
  shows "phase_ok phase_of vec' name = phase_ok phase_of vec name"
proof -
  have "mu_of vec' = mu_of vec" using assms by (simp add: mu_of_def fun_eq_iff)
  then show ?thesis by (simp add: phase_ok_def phase_sum_def split: option.splits)
qed

lemma record_ok_transfer:
  assumes "record_ok phase_of label vec"
    and "set (label_phases label') \<subseteq> set (label_phases label)"
    and "\<And>e. map_of vec' (El e) = map_of vec (El e)"
  shows "record_ok phase_of label' vec'"
  using assms(1,2) phase_ok_cong [of vec' vec phase_of, OF assms(3)]
  by (auto simp: record_ok_def list_all_iff)

lemma set_update_cases:
  "x \<in> set (AList.update k v al) \<Longrightarrow> x = (k, v) \<or> x \<in> set al"
  by (induction al) (auto split: if_splits)

lemma table_ok_update:
  assumes "table_ok phase_of fin" and "record_ok phase_of k v"
  shows "table_ok phase_of (AList.update k v fin)"
  using assms set_update_cases [of _ k v fin]
  by (fastforce simp: table_ok_def list_all_iff)

lemma table_ok_lookup:
  assumes "table_ok phase_of t" and "map_of t k = Some v"
  shows "record_ok phase_of k v"
  using assms map_of_SomeD [of t k v] by (auto simp: table_ok_def list_all_iff)

lemma record_ok_Str_update:
  assumes "record_ok phase_of label vec"
  shows "record_ok phase_of label (AList.update (Str k) x vec)"
  by (rule record_ok_transfer [OF assms]) (simp_all add: update_conv')


lemma bulk_facet_ok:
  assumes c: "table_ok phase_of chem_lims" and f: "table_ok phase_of fin"
    and b: "bulk_facet chem_lims key fin = Inr fin'"
  shows "table_ok phase_of fin'"
proof -
  obtain blk blknom subnom
    where d: "diff_bulk_sub_phases (split_dash key) None = (blk, blknom, subnom)"
    by (metis prod_cases3)
  from b d obtain v where v: "map_of chem_lims key = Some v"
    and e: "fin' = AList.update blknom v fin"
    by (auto simp: bulk_facet_def ebind_eq_Inr dict_get_eq_Inr)
  from table_ok_lookup [OF c v] have "record_ok phase_of key v" .
  then have "record_ok phase_of blknom v"
    by (rule record_ok_transfer) (simp_all add: label_phases_blknom [OF d])
  with f show ?thesis unfolding e by (rule table_ok_update)
qed

lemma name_append_ok:
  assumes f: "table_ok phase_of fin" and n: "name_append blknom subnom fin = Inr fin'"
  shows "table_ok phase_of fin'"
proof -
  from n obtain r t where r: "map_of fin blknom = Some r"
    and e: "fin' = AList.update blknom (AList.update (Str ''name-append'') (Txt t) r) fin"
    by (rule name_append_Inr)
  from table_ok_lookup [OF f r]
  have "record_ok phase_of blknom (AList.update (Str ''name-append'') (Txt t) r)"
    by (rule record_ok_Str_update)
  with f show ?thesis unfolding e by (rule table_ok_update)
qed

lemma merge_facet_ok:
  assumes c: "table_ok phase_of chem_lims" and f: "table_ok phase_of fin"
    and m: "merge_facet lib n sub_el chem_lims key fin = Inr fin'"
  shows "table_ok phase_of fin'"
proof -
  obtain blk blknom subnom
    where d: "diff_bulk_sub_phases (split_dash key) (Some sub_el) = (blk, blknom, subnom)"
    by (metis prod_cases3)
  show ?thesis
  proof (cases "length blk + 1 = n")
    case False
    with m d f show ?thesis by (simp add: merge_facet_def)
  next
    case acc: True
    show ?thesis
    proof (cases "blknom \<in> fst ` set fin")
      case False
      from merge_facet_absent [OF d acc False m] obtain v t
        where v: "dict_get chem_lims key = Inr v"
        and e: "fin' = AList.update blknom (AList.update (Str ''name-append'') (Txt t) v) fin"
        by metis
      from v have "map_of chem_lims key = Some v" by (simp add: dict_get_eq_Inr)
      from table_ok_lookup [OF c this] have "record_ok phase_of key v" .
      then have "record_ok phase_of blknom (AList.update (Str ''name-append'') (Txt t) v)"
        by (rule record_ok_transfer)
          (simp_all add: label_phases_blknom [OF d] update_conv')
      with f show ?thesis unfolding e by (rule table_ok_update)
    next
      case True
      from merge_facet_present [OF d acc True m] obtain mu r0 t
        where r0: "map_of fin blknom = Some r0"
        and e: "fin' = AList.update blknom
                  (AList.update (Str ''name-append'') (Txt t) (AList.update (Str sub_el) mu r0))
                  fin"
        by metis
      from table_ok_lookup [OF f r0]
      have "record_ok phase_of blknom
              (AList.update (Str ''name-append'') (Txt t) (AList.update (Str sub_el) mu r0))"
        by (rule record_ok_transfer) (simp_all add: update_conv')
      with f show ?thesis unfolding e by (rule table_ok_update)
    qed
  qed
qed

lemma user_merge_facet_ok:
  assumes c: "table_ok phase_of chem_lims" and f: "table_ok phase_of fin"
    and m: "user_merge_facet symbols sub_el chem_lims key fin = Inr fin'"
  shows "table_ok phase_of fin'"
proof -
  obtain blk blknom subnom
    where d: "diff_bulk_sub_phases (split_dash key) (Some sub_el) = (blk, blknom, subnom)"
    by (metis prod_cases3)
  from m d obtain species where sp: "symbols = Some species"
    by (cases symbols) (simp_all add: user_merge_facet_def)
  show ?thesis
  proof (cases "length blk + 1 = length species")
    case False
    with m d f sp show ?thesis by (simp add: user_merge_facet_def)
  next
    case acc: True
    show ?thesis
    proof (cases "blknom \<in> fst ` set fin")
      case False
      with m d sp acc obtain v where v: "map_of chem_lims key = Some v"
        and na: "name_append blknom subnom (AList.update blknom v fin) = Inr fin'"
        by (auto simp: user_merge_facet_def ebind_eq_Inr dict_get_eq_Inr)
      from table_ok_lookup [OF c v] have "record_ok phase_of key v" .
      then have "record_ok phase_of blknom v"
        by (rule record_ok_transfer) (simp_all add: label_phases_blknom [OF d])
      with f have "table_ok phase_of (AList.update blknom v fin)" by (rule table_ok_update)
      then show ?thesis using na by (rule name_append_ok)
    next
      case True
      with m d sp acc obtain mu r0 where r0: "map_of fin blknom = Some r0"
        and na: "name_append blknom subnom
                   (AList.update blknom (AList.update (Str sub_el) mu r0) fin) = Inr fin'"
        by (auto simp: user_merge_facet_def ebind_eq_Inr dict_get_eq_Inr)
      from table_ok_lookup [OF f r0]
      have "record_ok phase_of blknom (AList.update (Str sub_el) mu r0)"
        by (rule record_ok_Str_update)
      with f have "table_ok phase_of (AList.update blknom (AList.update (Str sub_el) mu r0) fin)"
        by (rule table_ok_update)
      then show ?thesis using na by (rule name_append_ok)
    qed
  qed
qed

lemma solve_ok:
  assumes "solver_postcondition lib phase_of" and "solve lib b entries = Inr t"
  shows "table_ok phase_of t"
  using assms
  by (auto simp: solver_postcondition_def solve_def get_chempots_from_pd_def ebind_eq_Inr
      split: option.splits)

lemma bulk_facets_ok:
  assumes c: "table_ok phase_of chem_lims" and b: "bulk_facets chem_lims = Inr fin"
  shows "table_ok phase_of fin"
proof (rule for_each_invariant [OF b [unfolded bulk_facets_def], where I = "table_ok phase_of"])
  show "table_ok phase_of []" by (simp add: table_ok_def)
next
  fix x t t'
  assume "bulk_facet chem_lims x t = Inr t'" and "table_ok phase_of t"
  with c show "table_ok phase_of t'" using bulk_facet_ok by blast
qed

lemma merge_sub_el_ok:
  assumes p: "solver_postcondition lib phase_of" and f: "table_ok phase_of fin"
    and m: "merge_sub_el lib st entry_list sub_el fin = Inr fin'"
  shows "table_ok phase_of fin'"
proof -
  from m obtain subs pd chem_lims
    where g: "get_chempots_from_pd lib (bulk_ce st) pd = Inr chem_lims"
    and l: "for_each (merge_facet lib (length (bulk_species_symbol st)) sub_el chem_lims)
              (map fst chem_lims) fin = Inr fin'"
    by (auto simp: merge_sub_el_def ebind_eq_Inr)
  from p g have c: "table_ok phase_of chem_lims"
    by (auto simp: solver_postcondition_def get_chempots_from_pd_def ebind_eq_Inr
        split: option.splits)
  show ?thesis
  proof (rule for_each_invariant [OF l, where I = "table_ok phase_of"])
    show "table_ok phase_of fin" by (rule f)
  next
    fix x t t'
    assume "merge_facet lib (length (bulk_species_symbol st)) sub_el chem_lims x t = Inr t'"
      and "table_ok phase_of t"
    with c show "table_ok phase_of t'" using merge_facet_ok by blast
  qed
qed

lemma merged_table_ok:
  assumes p: "solver_postcondition lib phase_of" and c: "table_ok phase_of chem_lims"
    and m: "merged_table lib st entry_list chem_lims = Inr fin"
  shows "table_ok phase_of fin"
proof -
  from m obtain fin0 where b: "bulk_facets chem_lims = Inr fin0"
    and l: "for_each (merge_sub_el lib st entry_list) (sub_species st) fin0 = Inr fin"
    by (auto simp: merged_table_def ebind_eq_Inr)
  show ?thesis
  proof (rule for_each_invariant [OF l, where I = "table_ok phase_of"])
    show "table_ok phase_of fin0" by (rule bulk_facets_ok [OF c b])
  next
    fix x t t'
    assume "merge_sub_el lib st entry_list x t = Inr t'" and "table_ok phase_of t"
    with p show "table_ok phase_of t'" using merge_sub_el_ok by blast
  qed
qed

lemma dilute_chempots_ok:
  assumes p: "solver_postcondition lib phase_of" and c: "table_ok phase_of chem_lims"
    and d: "dilute_chempots lib st chem_lims = Inr (st', t)"
  shows "table_ok phase_of t"
proof -
  from d obtain fin where m: "merged_table lib st (bulk_derived st) chem_lims = Inr fin"
    and r: "(if \<not> overdependent_chempot st fin then Inr (st, fin)
             else ebind (solve lib (bulk_ce st) (full_entry_list st (bulk_derived st)))
                    (\<lambda>chem_lims'.
                       Inr (st\<lparr>bulk_derived := full_entry_list st (bulk_derived st)\<rparr>,
                            chem_lims'))) = Inr (st', t)"
    by (auto simp: dilute_chempots_def ebind_eq_Inr)
  show ?thesis
  proof (cases "overdependent_chempot st fin")
    case False
    with r have "t = fin" by simp
    with merged_table_ok [OF p c m] show ?thesis by simp
  next
    case True
    with r have "solve lib (bulk_ce st) (full_entry_list st (bulk_derived st)) = Inr t"
      by (auto simp: ebind_eq_Inr)
    with p show ?thesis by (rule solve_ok)
  qed
qed

lemma analyze_GGA_chempots_ok:
  assumes p: "solver_postcondition lib phase_of"
    and a: "analyze_GGA_chempots lib mp st0 full_sub_approach = Inr (st', t)"
  shows "table_ok phase_of t"
proof -
  from a obtain st1 bo entry_list chem_lims
    where s: "solve lib bo entry_list = Inr chem_lims"
    and r: "(if \<not> full_sub_approach
             then dilute_chempots lib (st1\<lparr>bulk_derived := entry_list\<rparr>) chem_lims
             else Inr (st1\<lparr>bulk_derived := entry_list\<rparr>, chem_lims)) = Inr (st', t)"
    by (auto simp: analyze_GGA_chempots_def ebind_eq_Inr split: option.splits)
  from solve_ok [OF p s] have c: "table_ok phase_of chem_lims" .
  show ?thesis
  proof (cases full_sub_approach)
    case True
    with r c show ?thesis by simp
  next
    case False
    with r have "dilute_chempots lib (st1\<lparr>bulk_derived := entry_list\<rparr>) chem_lims
                   = Inr (st', t)" by simp
    with p c show ?thesis by (rule dilute_chempots_ok)
  qed
qed


lemma user_merge_sub_el_ok:
  assumes p: "solver_postcondition lib phase_of" and f: "table_ok phase_of fin"
    and m: "user_merge_sub_el lib st b entry_list subs sub_el fin = Inr fin'"
  shows "table_ok phase_of fin'"
proof -
  from m obtain es chem_lims
    where g: "solve lib (Some b) es = Inr chem_lims"
    and l: "for_each (user_merge_facet (user_bulk_species_symbol st) sub_el chem_lims)
              (map fst chem_lims) fin = Inr fin'"
    by (auto simp: user_merge_sub_el_def ebind_eq_Inr)
  from solve_ok [OF p g] have c: "table_ok phase_of chem_lims" .
  show ?thesis
  proof (rule for_each_invariant [OF l, where I = "table_ok phase_of"])
    show "table_ok phase_of fin" by (rule f)
  next
    fix x t t'
    assume "user_merge_facet (user_bulk_species_symbol st) sub_el chem_lims x t = Inr t'"
      and "table_ok phase_of t"
    with c show "table_ok phase_of t'" using user_merge_facet_ok by blast
  qed
qed

lemma user_dilute_chempots_ok:
  assumes p: "solver_postcondition lib phase_of"
    and d: "user_dilute_chempots lib st b personal = Inr t"
  shows "table_ok phase_of t"
proof -
  from d obtain entry_list subs chem_lims fin0
    where s: "solve lib (Some b) entry_list = Inr chem_lims"
    and bf: "bulk_facets chem_lims = Inr fin0"
    and l: "for_each (user_merge_sub_el lib st b entry_list subs) (user_sub_species st) fin0
              = Inr t"
    by (auto simp: user_dilute_chempots_def ebind_eq_Inr)
  from solve_ok [OF p s] have c: "table_ok phase_of chem_lims" .
  show ?thesis
  proof (rule for_each_invariant [OF l, where I = "table_ok phase_of"])
    show "table_ok phase_of fin0" by (rule bulk_facets_ok [OF c bf])
  next
    fix x u u'
    assume "user_merge_sub_el lib st b entry_list subs x u = Inr u'" and "table_ok phase_of u"
    with p show "table_ok phase_of u'" using user_merge_sub_el_ok by blast
  qed
qed

lemma read_phase_diagram_and_chempots_ok:
  assumes p: "solver_postcondition lib phase_of"
    and r: "read_phase_diagram_and_chempots lib files st full_sub_approach = Inr (Some t)"
  shows "table_ok phase_of t"
proof -
  from r obtain b personal
    where e: "(if full_sub_approach then solve lib (Some b) personal
               else user_dilute_chempots lib st b personal) = Inr t"
    by (auto simp: read_phase_diagram_and_chempots_def ebind_eq_Inr split: option.splits)
  show ?thesis
  proof (cases full_sub_approach)
    case True
    with e have "solve lib (Some b) personal = Inr t" by simp
    with p show ?thesis by (rule solve_ok)
  next
    case False
    with e have "user_dilute_chempots lib st b personal = Inr t" by simp
    with p show ?thesis by (rule user_dilute_chempots_ok)
  qed
qed

lemma ex_ok_post: "solver_postcondition ex_ok ex_phase"
proof -
  have a: "table_ok ex_phase ex_fin" by code_simp
  have b: "table_ok ex_phase ex_hull_sub" by code_simp
  show ?thesis
    unfolding solver_postcondition_def using a b by (auto simp: ex_ok_def ex_lib_def)
qed

lemma ex_ok_analyze:
  "analyze_GGA_chempots ex_ok ex_mp (ex_analyzer [''S'']) False
     = Inr (ex_dilute\<lparr>bulk_derived := [ex_A, ex_B, ex_AB, ex_S, ex_AS]\<rparr>, ex_hull_sub)"
  by code_simp

lemma ex_ok_analyze0:
  "analyze_GGA_chempots ex_ok ex_mp (ex_analyzer []) False
     = Inr (ex_bulk_only\<lparr>bulk_derived := [ex_A, ex_B, ex_AB]\<rparr>, ex_fin)"
  by code_simp

lemma ex_not_ok: "\<not> table_ok ex_phase ex_sub_table"
  by code_simp

text \<open>
  C9. Given the postcondition of the library's solver, every table the code returns
  satisfies the equations of its phases (floats as reals): the table of
  \<^verbatim>\<open>get_chempots_from_pd\<close>, the table of \<^verbatim>\<open>analyze_GGA_chempots\<close> (bulk-only,
  merged or escalated, with either value of \<^verbatim>\<open>full_sub_approach\<close>) and the table of
  \<^verbatim>\<open>read_phase_diagram_and_chempots\<close>. That is: for every record (label, vector) of
  the table and every phase named in the label, the sum over the elements of the phase of
  amount times chemical potential, the potentials being those under the \<^verbatim>\<open>Element\<close>
  keys of the vector, is within \<open>1e-6\<close> of the energy of the phase. The phases of a merged
  record are those of its bulk label, under which it is stored; the substitutional
  phases noted under \<^verbatim>\<open>'name-append'\<close> are not phases of the label.
\<close>

theorem returned_tables_satisfy_phase_equations:
  assumes "solver_postcondition lib phase_of"
  shows "(get_chempots_from_pd lib b pd = Inr t \<longrightarrow> table_ok phase_of t)
     \<and> (analyze_GGA_chempots lib mp st_in full_sub_approach = Inr (st_out, t_mp)
          \<longrightarrow> table_ok phase_of t_mp)
     \<and> (read_phase_diagram_and_chempots lib files ust full_sub_approach = Inr (Some t_user)
          \<longrightarrow> table_ok phase_of t_user)
     \<and> (table_ok phase_of t_any \<longrightarrow>
          (\<forall>label vec name p. (label, vec) \<in> set t_any \<and> name \<in> set (label_phases label)
               \<and> phase_of name = Some p \<longrightarrow>
             \<bar>(\<Sum>(e, n)\<leftarrow>composition p. real n * the (mu_of vec e)) - energy p\<bar>
               \<le> 1 / 1000000))"
proof -
  have a: "get_chempots_from_pd lib b pd = Inr t \<longrightarrow> table_ok phase_of t"
    using assms
    by (auto simp: solver_postcondition_def get_chempots_from_pd_def ebind_eq_Inr
        split: option.splits)
  have c: "analyze_GGA_chempots lib mp st_in full_sub_approach = Inr (st_out, t_mp)
          \<longrightarrow> table_ok phase_of t_mp"
    using analyze_GGA_chempots_ok [OF assms] by blast
  have d: "read_phase_diagram_and_chempots lib files ust full_sub_approach = Inr (Some t_user)
          \<longrightarrow> table_ok phase_of t_user"
    using read_phase_diagram_and_chempots_ok [OF assms] by blast
  have e: "table_ok phase_of t_any \<longrightarrow>
          (\<forall>label vec name p. (label, vec) \<in> set t_any \<and> name \<in> set (label_phases label)
               \<and> phase_of name = Some p \<longrightarrow>
             \<bar>(\<Sum>(e, n)\<leftarrow>composition p. real n * the (mu_of vec e)) - energy p\<bar>
               \<le> 1 / 1000000)"
  proof (intro impI allI, elim conjE)
    fix label vec name p
    assume t: "table_ok phase_of t_any" and m: "(label, vec) \<in> set t_any"
      and n: "name \<in> set (label_phases label)" and ph: "phase_of name = Some p"
    from t m n have "phase_ok phase_of vec name"
      by (auto simp: table_ok_def record_ok_def list_all_iff)
    with ph have df: "list_all (\<lambda>(e, n). mu_of vec e \<noteq> None) (composition p)"
      and s: "\<bar>phase_sum vec (composition p) - energy p\<bar> \<le> 1 / 1000000"
      by (simp_all add: phase_ok_def)
    have "map (\<lambda>(e, n). real n * (case mu_of vec e of Some x \<Rightarrow> x | None \<Rightarrow> 0)) (composition p)
            = map (\<lambda>(e, n). real n * the (mu_of vec e)) (composition p)"
      using df by (auto simp: list_all_iff)
    with s show "\<bar>(\<Sum>(e, n)\<leftarrow>composition p. real n * the (mu_of vec e)) - energy p\<bar>
               \<le> 1 / 1000000"
      by (simp add: phase_sum_def)
  qed
  from a c d e show ?thesis by blast
qed

theorem returned_tables_satisfy_phase_equations_witness:
  "solver_postcondition ex_ok ex_phase
   \<and> analyze_GGA_chempots ex_ok ex_mp (ex_analyzer [''S'']) False
       = Inr (ex_dilute\<lparr>bulk_derived := [ex_A, ex_B, ex_AB, ex_S, ex_AS]\<rparr>, ex_hull_sub)
   \<and> table_ok ex_phase ex_hull_sub
   \<and> analyze_GGA_chempots ex_ok ex_mp (ex_analyzer []) False
       = Inr (ex_bulk_only\<lparr>bulk_derived := [ex_A, ex_B, ex_AB]\<rparr>, ex_fin)
   \<and> table_ok ex_phase ex_fin
   \<and> \<bar>(\<Sum>(e, n)\<leftarrow>composition ex_AS. real n * the (mu_of (ex_mu3 (- 1) (- 1) 0) e))
        - energy ex_AS\<bar> \<le> 1 / 1000000
   \<and> \<not> table_ok ex_phase ex_sub_table"
proof -
  note r = returned_tables_satisfy_phase_equations [OF ex_ok_post,
      where mp = ex_mp and st_in = "ex_analyzer [''S'']" and full_sub_approach = False
      and st_out = "ex_dilute\<lparr>bulk_derived := [ex_A, ex_B, ex_AB, ex_S, ex_AS]\<rparr>"
      and t_mp = ex_hull_sub and t_any = ex_hull_sub]
  note r0 = returned_tables_satisfy_phase_equations [OF ex_ok_post,
      where mp = ex_mp and st_in = "ex_analyzer []" and full_sub_approach = False
      and st_out = "ex_bulk_only\<lparr>bulk_derived := [ex_A, ex_B, ex_AB]\<rparr>"
      and t_mp = ex_fin]
  from r ex_ok_analyze have a: "table_ok ex_phase ex_hull_sub" by blast
  from r0 ex_ok_analyze0 have b: "table_ok ex_phase ex_fin" by blast
  have m: "(''AB-AS-S'', ex_mu3 (- 1) (- 1) 0) \<in> set ex_hull_sub"
    by (simp add: ex_hull_sub_def)
  have l: "''AS'' \<in> set (label_phases ''AB-AS-S'')"
    by (simp add: label_phases_def)
  have ph: "ex_phase ''AS'' = Some ex_AS"
    by (simp add: ex_phase_def)
  from r a m l ph
  have c: "\<bar>(\<Sum>(e, n)\<leftarrow>composition ex_AS. real n * the (mu_of (ex_mu3 (- 1) (- 1) 0) e))
        - energy ex_AS\<bar> \<le> 1 / 1000000"
    by blast
  from ex_ok_post ex_ok_analyze a ex_ok_analyze0 b c ex_not_ok show ?thesis by blast
qed

end
